theory Spec2Isabelle
  imports Main
begin

section \<open>Data model\<close>

text \<open>
  The dashboard code in \<^verbatim>\<open>forms.py\<close> and \<^verbatim>\<open>views.py\<close> works on two tables,
  \<^verbatim>\<open>Voucher\<close> and \<^verbatim>\<open>VoucherSet\<close>, through the ORM. A row is a record, a table is the
  list of its rows in insertion order, primary keys come from a counter. Datetimes are
  integers (a timestamp), offers are referred to by their primary keys.
\<close>

text \<open>
  Modelled from the spec: the members of \<^verbatim>\<open>Voucher.USAGE_CHOICES\<close> (the model class is
  not part of the dashboard sources): single-use, multi-use, once-per-customer.
\<close>

datatype usage = SINGLE_USE | MULTI_USE | ONCE_PER_CUSTOMER

text \<open>
  Modelled from the spec: the \<^verbatim>\<open>Voucher\<close> model. The fields are those the dashboard
  code reads and writes (\<^verbatim>\<open>id\<close> is called \<open>pk\<close> here).
\<close>

record Voucher =
  pk :: nat
  name :: string
  code :: string
  usage :: usage
  start_datetime :: int
  end_datetime :: int
  voucher_set :: "nat option"
  offers :: "nat set"
  date_created :: int
  num_basket_additions :: nat
  num_orders :: nat

text \<open>
  Modelled from the spec: the \<^verbatim>\<open>VoucherSet\<close> model: \<open>count\<close> is the desired number of
  child vouchers (the form field), \<open>num_vouchers\<close> the denormalised actual number.
\<close>

record VoucherSet =
  set_pk :: nat
  set_name :: string
  code_length :: int
  description :: string
  set_start_datetime :: int
  set_end_datetime :: int
  count :: nat
  num_vouchers :: nat

record store =
  vouchers :: "Voucher list"
  voucher_sets :: "VoucherSet list"
  next_voucher_pk :: nat
  next_set_pk :: nat

definition empty_store :: store where
  "empty_store = \<lparr>vouchers = [], voucher_sets = [], next_voucher_pk = 1, next_set_pk = 1\<rparr>"

subsection \<open>Text\<close>

text \<open>
  Python's \<^verbatim>\<open>str.strip()\<close> and \<^verbatim>\<open>str.upper()\<close> on ASCII text: \<open>strip\<close> removes
  leading and trailing whitespace (space, tab, line feed, vertical tab, form feed,
  carriage return and the four separators 0x1C to 0x1F), \<open>upper\<close> maps a to z onto A to Z.
\<close>

definition isspace :: "char \<Rightarrow> bool" where
  "isspace c \<longleftrightarrow> (of_char c :: nat) \<in> {9, 10, 11, 12, 13, 28, 29, 30, 31, 32}"

definition strip :: "string \<Rightarrow> string" where
  "strip s = rev (dropWhile isspace (rev (dropWhile isspace s)))"

definition upper_char :: "char \<Rightarrow> char" where
  "upper_char c =
     (let n = (of_char c :: nat) in if 97 \<le> n \<and> n \<le> 122 then char_of (n - 32) else c)"

definition upper :: "string \<Rightarrow> string" where
  "upper s = map upper_char s"

text \<open>
  Text of ASCII characters only, for which the two functions are Python's, and without the
  null character, which the framework's text fields reject from version 2.0 on.
\<close>

definition ascii :: "string \<Rightarrow> bool" where
  "ascii s \<longleftrightarrow> (\<forall>c\<in>set s. 0 < (of_char c :: nat) \<and> (of_char c :: nat) < 128)"

text \<open>
  The lookup \<^verbatim>\<open>name__icontains\<close>: the needle occurs in the text as a contiguous piece,
  letter case ignored.
\<close>

fun contains :: "string \<Rightarrow> string \<Rightarrow> bool" where
  "contains needle [] = (needle = [])"
| "contains needle (c # cs) =
     (take (length needle) (c # cs) = needle \<or> contains needle cs)"

definition icontains :: "string \<Rightarrow> string \<Rightarrow> bool" where
  "icontains needle text = contains (upper needle) (upper text)"

section \<open>The ORM as the dashboard uses it\<close>

text \<open>
  The validation errors of the forms. \<open>Required f\<close> is the framework's own error for the
  required field \<open>f\<close> that was given no value; the others are what the cleaning methods
  in \<^verbatim>\<open>forms.py\<close> raise.
\<close>

datatype validation_error =
  DuplicateName | DuplicateCode | EmptyCode | InvalidRange | CountDecrease
  | Required string

text \<open>
  What a call can raise. \<open>ValidationError\<close> is what the forms raise themselves;
  \<open>DoesNotExist\<close> and \<open>MultipleObjectsReturned\<close> are what \<^verbatim>\<open>objects.get\<close> raises when
  no row or more than one row matches; \<open>NoUnusedCode\<close> stands for a code generator that
  delivers no code; \<open>KeyError\<close> is a read of a key that \<^verbatim>\<open>cleaned_data\<close> does not hold.
\<close>

datatype exception =
  ValidationError validation_error
  | DoesNotExist
  | MultipleObjectsReturned
  | NoUnusedCode
  | KeyError

text \<open>What a view answers to a POST.\<close>

datatype response =
  Redirect
  | RedirectToSet nat
  | FormErrors "validation_error list"
  | ServerError exception
  | NotFound

definition objects_get :: "('a \<Rightarrow> bool) \<Rightarrow> 'a list \<Rightarrow> exception + 'a" where
  "objects_get p rows =
     (case filter p rows of
        [] \<Rightarrow> Inl DoesNotExist
      | [r] \<Rightarrow> Inr r
      | _ \<Rightarrow> Inl MultipleObjectsReturned)"

text \<open>
  \<^verbatim>\<open>Voucher.objects.create(...)\<close>: a new row with the next primary key, no offers yet, and
  the creation time of the call.
\<close>

definition Voucher_objects_create ::
  "int \<Rightarrow> string \<Rightarrow> string \<Rightarrow> nat option \<Rightarrow> usage \<Rightarrow> int \<Rightarrow> int \<Rightarrow> store \<Rightarrow> Voucher \<times> store"
  where
  "Voucher_objects_create now nm cd vset us sd ed st =
     (let voucher = \<lparr>pk = next_voucher_pk st, name = nm, code = cd, usage = us,
            start_datetime = sd, end_datetime = ed, voucher_set = vset, offers = {},
            date_created = now, num_basket_additions = 0, num_orders = 0\<rparr>
      in (voucher, st\<lparr>vouchers := vouchers st @ [voucher],
                       next_voucher_pk := Suc (next_voucher_pk st)\<rparr>))"

text \<open>\<^verbatim>\<open>voucher.offers.add(*offers)\<close> and \<^verbatim>\<open>voucher.offers.set(offers)\<close>, by the voucher's key.\<close>

definition offers_add :: "nat \<Rightarrow> nat set \<Rightarrow> store \<Rightarrow> store" where
  "offers_add vpk os st =
     st\<lparr>vouchers := map (\<lambda>v. if pk v = vpk then v\<lparr>offers := offers v \<union> os\<rparr> else v) (vouchers st)\<rparr>"

definition offers_set :: "nat \<Rightarrow> nat set \<Rightarrow> store \<Rightarrow> store" where
  "offers_set vpk os st =
     st\<lparr>vouchers := map (\<lambda>v. if pk v = vpk then v\<lparr>offers := os\<rparr> else v) (vouchers st)\<rparr>"

text \<open>\<^verbatim>\<open>instance.vouchers\<close>: the child vouchers of the voucher set with key \<open>k\<close>.\<close>

definition set_vouchers :: "nat \<Rightarrow> store \<Rightarrow> Voucher list" where
  "set_vouchers k st = filter (\<lambda>v. voucher_set v = Some k) (vouchers st)"

text \<open>
  Modelled from the spec: \<^verbatim>\<open>VoucherSet.update_count\<close> (the model class is not part of the
  dashboard sources): recompute the number of child vouchers and persist it in
  \<open>num_vouchers\<close>.
\<close>

definition update_count :: "nat \<Rightarrow> store \<Rightarrow> store" where
  "update_count k st =
     st\<lparr>voucher_sets :=
          map (\<lambda>s. if set_pk s = k then s\<lparr>num_vouchers := length (set_vouchers k st)\<rparr> else s)
            (voucher_sets st)\<rparr>"

text \<open>
  \<^verbatim>\<open>@transaction.atomic\<close>: the body runs on the store; when it raises, the store is the
  one from before the call.
\<close>

definition atomic ::
  "(store \<Rightarrow> (exception + 'a) \<times> store) \<Rightarrow> store \<Rightarrow> (exception + 'a) \<times> store" where
  "atomic body st =
     (case body st of
        (Inl e, _) \<Rightarrow> (Inl e, st)
      | (Inr r, st') \<Rightarrow> (Inr r, st'))"

section \<open>\<^verbatim>\<open>VoucherForm\<close> and the voucher views\<close>

text \<open>
  The data of a POST to \<^verbatim>\<open>VoucherForm\<close>: the two text fields as sent, and for the other
  fields what the request holds of them: \<open>None\<close> for a datetime or usage that is missing or
  not readable, and the set of the offers chosen among those the offers field lists.
\<close>

record VoucherFormData =
  f_name :: string
  f_code :: string
  f_start_datetime :: "int option"
  f_end_datetime :: "int option"
  f_usage :: "usage option"
  f_offers :: "nat set"

text \<open>\<^verbatim>\<open>cleaned_data\<close>: a key is present when its field passed its cleaning.\<close>

record cleaned_data =
  cd_name :: "string option"
  cd_code :: "string option"
  cd_start_datetime :: "int option"
  cd_end_datetime :: "int option"
  cd_usage :: "usage option"
  cd_offers :: "nat set option"

text \<open>
  The framework's cleaning of a field, for the fields as \<^verbatim>\<open>forms.py\<close> declares them (none
  sets \<^verbatim>\<open>required=False\<close> or \<^verbatim>\<open>strip=False\<close>): a \<^verbatim>\<open>CharField\<close> strips its value and
  rejects an empty one; any other field rejects a missing value; the offers field wants at
  least one offer.
\<close>

definition CharField_clean :: "string \<Rightarrow> string \<Rightarrow> exception + string" where
  "CharField_clean field_name v =
     (let stripped = strip v
      in if stripped = [] then Inl (ValidationError (Required field_name)) else Inr stripped)"

definition required_value :: "string \<Rightarrow> 'a option \<Rightarrow> exception + 'a" where
  "required_value field_name v =
     (case v of None \<Rightarrow> Inl (ValidationError (Required field_name)) | Some x \<Rightarrow> Inr x)"

definition required_choices :: "string \<Rightarrow> nat set \<Rightarrow> exception + nat set" where
  "required_choices field_name chosen =
     (if chosen = {} then Inl (ValidationError (Required field_name)) else Inr chosen)"

text \<open>
  \<^verbatim>\<open>self.voucher\<close> is the voucher being edited, \<open>None\<close> when the form creates one.
  \<open>not_self\<close> is the test
  \<^verbatim>\<open>(not self.voucher) or (voucher.id != self.voucher.id)\<close>.
\<close>

definition not_self :: "Voucher option \<Rightarrow> Voucher \<Rightarrow> bool" where
  "not_self self_voucher voucher =
     (case self_voucher of None \<Rightarrow> True | Some sv \<Rightarrow> pk voucher \<noteq> pk sv)"

text \<open>
  \<^verbatim>\<open>clean_name\<close> and \<^verbatim>\<open>clean_code\<close>; the argument is \<^verbatim>\<open>self.cleaned_data['name']\<close>
  (\<^verbatim>\<open>['code']\<close>), the value the field's own cleaning left.
\<close>

definition clean_name :: "store \<Rightarrow> Voucher option \<Rightarrow> string \<Rightarrow> exception + string" where
  "clean_name st self_voucher nm =
     (case objects_get (\<lambda>v. name v = nm) (vouchers st) of
        Inl DoesNotExist \<Rightarrow> Inr nm
      | Inl e \<Rightarrow> Inl e
      | Inr voucher \<Rightarrow>
          if not_self self_voucher voucher then Inl (ValidationError DuplicateName)
          else Inr nm)"

definition clean_code :: "store \<Rightarrow> Voucher option \<Rightarrow> string \<Rightarrow> exception + string" where
  "clean_code st self_voucher raw =
     (let cd = upper (strip raw)
      in if cd = [] then Inl (ValidationError EmptyCode)
         else case objects_get (\<lambda>v. code v = cd) (vouchers st) of
                Inl DoesNotExist \<Rightarrow> Inr cd
              | Inl e \<Rightarrow> Inl e
              | Inr voucher \<Rightarrow>
                  if not_self self_voucher voucher then Inl (ValidationError DuplicateCode)
                  else Inr cd)"

text \<open>
  \<^verbatim>\<open>clean\<close>: the two datetimes are read with \<^verbatim>\<open>cleaned_data.get\<close>, and compared when
  both are there.
\<close>

definition clean :: "cleaned_data \<Rightarrow> exception + cleaned_data" where
  "clean cleaned =
     (case (cd_start_datetime cleaned, cd_end_datetime cleaned) of
        (Some start_dt, Some end_dt) \<Rightarrow>
          if end_dt < start_dt then Inl (ValidationError InvalidRange) else Inr cleaned
      | _ \<Rightarrow> Inr cleaned)"

text \<open>
  The framework's \<^verbatim>\<open>full_clean\<close>: for each field in the order of its declaration, the
  field's own cleaning and then, if that passed, the form's \<^verbatim>\<open>clean_<field>\<close> method;
  last \<^verbatim>\<open>clean\<close>. The validation errors raised on the way are collected, any other
  exception goes through at once. The result is the exception that escaped, or the list
  of errors with the cleaned data.
\<close>

fun errors_of :: "exception + 'a \<Rightarrow> validation_error list" where
  "errors_of (Inl (ValidationError e)) = [e]"
| "errors_of _ = []"

fun escapes :: "exception + 'a \<Rightarrow> exception option" where
  "escapes (Inl (ValidationError e)) = None"
| "escapes (Inl e) = Some e"
| "escapes (Inr _) = None"

fun value_of :: "exception + 'a \<Rightarrow> 'a option" where
  "value_of (Inr x) = Some x"
| "value_of (Inl _) = None"

definition and_then :: "exception + 'a \<Rightarrow> ('a \<Rightarrow> exception + 'a) \<Rightarrow> exception + 'a" where
  "and_then r clean_field = (case r of Inl e \<Rightarrow> Inl e | Inr v \<Rightarrow> clean_field v)"

definition full_clean ::
  "store \<Rightarrow> Voucher option \<Rightarrow> VoucherFormData \<Rightarrow>
   exception + (validation_error list \<times> cleaned_data)" where
  "full_clean st self_voucher d =
     (let r_name = and_then (CharField_clean ''name'' (f_name d)) (clean_name st self_voucher)
      in case escapes r_name of
           Some e \<Rightarrow> Inl e
         | None \<Rightarrow>
            (let r_code = and_then (CharField_clean ''code'' (f_code d))
                            (clean_code st self_voucher)
             in case escapes r_code of
                  Some e \<Rightarrow> Inl e
                | None \<Rightarrow>
                   (let r_start = required_value ''start_datetime'' (f_start_datetime d);
                        r_end = required_value ''end_datetime'' (f_end_datetime d);
                        r_usage = required_value ''usage'' (f_usage d);
                        r_offers = required_choices ''offers'' (f_offers d);
                        cleaned = \<lparr>cd_name = value_of r_name, cd_code = value_of r_code,
                                    cd_start_datetime = value_of r_start,
                                    cd_end_datetime = value_of r_end,
                                    cd_usage = value_of r_usage,
                                    cd_offers = value_of r_offers\<rparr>;
                        r_form = clean cleaned
                    in Inr (errors_of r_name @ errors_of r_code @ errors_of r_start
                              @ errors_of r_end @ errors_of r_usage @ errors_of r_offers
                              @ errors_of r_form,
                            cleaned))))"

text \<open>
  \<^verbatim>\<open>VoucherCreateView\<close>: \<^verbatim>\<open>form_valid\<close> (which reads all six keys of
  \<^verbatim>\<open>cleaned_data\<close> and runs under \<^verbatim>\<open>@transaction.atomic()\<close>) and the handling of a POST.
\<close>

definition VoucherCreateView_form_valid ::
  "int \<Rightarrow> cleaned_data \<Rightarrow> store \<Rightarrow> exception + store" where
  "VoucherCreateView_form_valid now cleaned st =
     (case (cd_name cleaned, cd_code cleaned, cd_usage cleaned,
            cd_start_datetime cleaned, cd_end_datetime cleaned, cd_offers cleaned) of
        (Some nm, Some cd, Some us, Some sd, Some ed, Some os) \<Rightarrow>
          (let (voucher, st1) = Voucher_objects_create now nm cd None us sd ed st
           in Inr (offers_add (pk voucher) os st1))
      | _ \<Rightarrow> Inl KeyError)"

definition VoucherCreateView_post :: "int \<Rightarrow> VoucherFormData \<Rightarrow> store \<Rightarrow> response \<times> store"
  where
  "VoucherCreateView_post now d st =
     (case full_clean st None d of
        Inl e \<Rightarrow> (ServerError e, st)
      | Inr (errors, cleaned) \<Rightarrow>
          if errors \<noteq> [] then (FormErrors errors, st)
          else (case VoucherCreateView_form_valid now cleaned st of
                  Inl e \<Rightarrow> (ServerError e, st)
                | Inr st' \<Rightarrow> (Redirect, st')))"

text \<open>
  \<^verbatim>\<open>VoucherUpdateView\<close>: \<^verbatim>\<open>dispatch\<close> sends a voucher of a set to the set's own form;
  \<^verbatim>\<open>form_valid\<close> writes the cleaned fields to the voucher and saves it.
\<close>

definition VoucherUpdateView_form_valid ::
  "Voucher \<Rightarrow> cleaned_data \<Rightarrow> store \<Rightarrow> exception + store" where
  "VoucherUpdateView_form_valid voucher cleaned st =
     (case (cd_name cleaned, cd_code cleaned, cd_usage cleaned,
            cd_start_datetime cleaned, cd_end_datetime cleaned, cd_offers cleaned) of
        (Some nm, Some cd, Some us, Some sd, Some ed, Some os) \<Rightarrow>
          (let voucher' = voucher\<lparr>name := nm, code := cd, usage := us,
                  start_datetime := sd, end_datetime := ed\<rparr>;
               st1 = st\<lparr>vouchers :=
                          map (\<lambda>v. if pk v = pk voucher then voucher' else v) (vouchers st)\<rparr>
           in Inr (offers_set (pk voucher) os st1))
      | _ \<Rightarrow> Inl KeyError)"

definition VoucherUpdateView_post :: "nat \<Rightarrow> VoucherFormData \<Rightarrow> store \<Rightarrow> response \<times> store"
  where
  "VoucherUpdateView_post vpk d st =
     (case objects_get (\<lambda>v. pk v = vpk) (vouchers st) of
        Inl e \<Rightarrow> (ServerError e, st)
      | Inr voucher \<Rightarrow>
          (case voucher_set voucher of
             Some k \<Rightarrow> (RedirectToSet k, st)
           | None \<Rightarrow>
               (case full_clean st (Some voucher) d of
                  Inl e \<Rightarrow> (ServerError e, st)
                | Inr (errors, cleaned) \<Rightarrow>
                    if errors \<noteq> [] then (FormErrors errors, st)
                    else (case VoucherUpdateView_form_valid voucher cleaned st of
                            Inl e \<Rightarrow> (ServerError e, st)
                          | Inr st' \<Rightarrow> (Redirect, st')))))"

text \<open>
  \<^verbatim>\<open>VoucherDeleteView.delete\<close>: the generic view looks the voucher up (a missing one is a
  404) and deletes it; then the set it belonged to, if any, recounts.
\<close>

definition VoucherDeleteView_delete :: "nat \<Rightarrow> store \<Rightarrow> response \<times> store" where
  "VoucherDeleteView_delete vpk st =
     (case objects_get (\<lambda>v. pk v = vpk) (vouchers st) of
        Inl DoesNotExist \<Rightarrow> (NotFound, st)
      | Inl e \<Rightarrow> (ServerError e, st)
      | Inr object \<Rightarrow>
          (let st1 = st\<lparr>vouchers := filter (\<lambda>v. pk v \<noteq> pk object) (vouchers st)\<rparr>
           in case voucher_set object of
                None \<Rightarrow> (Redirect, st1)
              | Some k \<Rightarrow> (Redirect, update_count k st1)))"

section \<open>The code generator\<close>

text \<open>
  Modelled from the spec: \<^verbatim>\<open>oscar.apps.voucher.utils.get_unused_code\<close> (not part of the
  dashboard sources): the Code Generator draws candidate codes of the desired length and
  retries until it finds one that no voucher in the store has. \<open>cands len i\<close> is the
  \<open>i\<close>-th candidate drawn for a length; the retry loop has no bound, so the result is
  \<open>None\<close> when it never returns.
\<close>

type_synonym candidates = "int \<Rightarrow> nat \<Rightarrow> string"

partial_function (option) first_unused :: "(nat \<Rightarrow> string) \<Rightarrow> string list \<Rightarrow> nat \<Rightarrow> string option"
  where
  "first_unused cand used i =
     (if cand i \<in> set used then first_unused cand used (Suc i) else Some (cand i))"

definition get_unused_code :: "candidates \<Rightarrow> int \<Rightarrow> store \<Rightarrow> string option" where
  "get_unused_code cands len st = first_unused (cands len) (map code (vouchers st)) 0"

section \<open>\<^verbatim>\<open>VoucherSetForm\<close> and the voucher set views\<close>

text \<open>The cleaned data of \<^verbatim>\<open>VoucherSetForm\<close>, as \<^verbatim>\<open>save\<close> reads it.\<close>

record VoucherSetFormData =
  sf_name :: string
  sf_code_length :: int
  sf_description :: string
  sf_start_datetime :: int
  sf_end_datetime :: int
  sf_count :: nat
  sf_usage :: usage
  sf_offers :: "nat set"

text \<open>
  \<^verbatim>\<open>self.instance\<close> is the voucher set as the view loaded it, \<open>None\<close> for the unsaved
  instance of the create view (whose \<^verbatim>\<open>pk\<close> is \<^verbatim>\<open>None\<close>).
\<close>

definition clean_count :: "VoucherSet option \<Rightarrow> nat \<Rightarrow> exception + nat" where
  "clean_count instance data =
     (case instance of
        None \<Rightarrow> Inr data
      | Some i \<Rightarrow>
          if data < count i then Inl (ValidationError CountDecrease) else Inr data)"

text \<open>
  \<^verbatim>\<open>super().save(commit)\<close> of the model form: the form's model fields are written to the
  instance and the instance is saved; a new instance gets the next primary key. Modelled
  from the spec: a set that was never recounted has \<open>num_vouchers = 0\<close>.
\<close>

definition ModelForm_save :: "VoucherSet option \<Rightarrow> VoucherSetFormData \<Rightarrow> store \<Rightarrow> nat \<times> store"
  where
  "ModelForm_save instance d st =
     (case instance of
        None \<Rightarrow>
          (next_set_pk st,
           st\<lparr>voucher_sets := voucher_sets st @
                 [\<lparr>set_pk = next_set_pk st, set_name = sf_name d,
                   code_length = sf_code_length d, description = sf_description d,
                   set_start_datetime = sf_start_datetime d,
                   set_end_datetime = sf_end_datetime d,
                   count = sf_count d, num_vouchers = 0\<rparr>],
               next_set_pk := Suc (next_set_pk st)\<rparr>)
      | Some i \<Rightarrow>
          (set_pk i,
           st\<lparr>voucher_sets :=
                 map (\<lambda>s. if set_pk s = set_pk i
                          then i\<lparr>set_name := sf_name d, code_length := sf_code_length d,
                                 description := sf_description d,
                                 set_start_datetime := sf_start_datetime d,
                                 set_end_datetime := sf_end_datetime d,
                                 count := sf_count d\<rparr>
                          else s)
                   (voucher_sets st)\<rparr>))"

text \<open>
  \<^verbatim>\<open>instance.vouchers.update(name=..., usage=..., start_datetime=..., end_datetime=...)\<close>
  and the loop \<^verbatim>\<open>for voucher in instance.vouchers.all(): voucher.offers.set(offers)\<close>.
\<close>

definition child_vouchers_update :: "nat \<Rightarrow> VoucherSetFormData \<Rightarrow> store \<Rightarrow> store" where
  "child_vouchers_update k d st =
     st\<lparr>vouchers :=
          map (\<lambda>v. if voucher_set v = Some k
                   then v\<lparr>name := sf_name d, usage := sf_usage d,
                          start_datetime := sf_start_datetime d,
                          end_datetime := sf_end_datetime d\<rparr>
                   else v)
            (vouchers st)\<rparr>"

definition set_all_offers :: "nat \<Rightarrow> nat set \<Rightarrow> store \<Rightarrow> store" where
  "set_all_offers k os st = fold (\<lambda>voucher. offers_set (pk voucher) os) (set_vouchers k st) st"

text \<open>
  The loop \<^verbatim>\<open>for i in range(instance.vouchers.count(), instance.count)\<close>, by the number
  of iterations left and with the flag \<^verbatim>\<open>vouchers_added\<close>. An iteration draws a code,
  creates the voucher and adds the offers; when the generator delivers no code the loop
  stops there with what it has done so far.
\<close>

fun add_vouchers ::
  "candidates \<Rightarrow> int \<Rightarrow> nat \<Rightarrow> VoucherSetFormData \<Rightarrow> nat \<Rightarrow> bool \<Rightarrow> store \<Rightarrow>
   (exception + bool) \<times> store"
  where
  "add_vouchers cands now k d 0 vouchers_added st = (Inr vouchers_added, st)"
| "add_vouchers cands now k d (Suc n) vouchers_added st =
     (case get_unused_code cands (sf_code_length d) st of
        None \<Rightarrow> (Inl NoUnusedCode, st)
      | Some cd \<Rightarrow>
          (let (voucher, st1) = Voucher_objects_create now (sf_name d) cd (Some k)
                 (sf_usage d) (sf_start_datetime d) (sf_end_datetime d) st;
               st2 = offers_add (pk voucher) (sf_offers d) st1
           in add_vouchers cands now k d n True st2))"

text \<open>
  The body of \<^verbatim>\<open>VoucherSetForm.save\<close> (with \<^verbatim>\<open>commit=True\<close>, as the views call it), and
  \<^verbatim>\<open>save\<close> itself, which runs the body under \<^verbatim>\<open>@transaction.atomic\<close>. The result is the
  key of the saved instance.
\<close>

definition save_body ::
  "candidates \<Rightarrow> int \<Rightarrow> VoucherSet option \<Rightarrow> VoucherSetFormData \<Rightarrow> store \<Rightarrow>
   (exception + nat) \<times> store" where
  "save_body cands now instance d st =
     (let (k, st1) = ModelForm_save instance d st;
          st2 = child_vouchers_update k d st1;
          st3 = set_all_offers k (sf_offers d) st2;
          iterations = sf_count d - length (set_vouchers k st3);
          (r, st4) = add_vouchers cands now k d iterations False st3
      in case r of
           Inl e \<Rightarrow> (Inl e, st4)
         | Inr vouchers_added \<Rightarrow>
             (Inr k, if vouchers_added then update_count k st4 else st4))"

definition save ::
  "candidates \<Rightarrow> int \<Rightarrow> VoucherSet option \<Rightarrow> VoucherSetFormData \<Rightarrow> store \<Rightarrow>
   (exception + nat) \<times> store" where
  "save cands now instance d st = atomic (save_body cands now instance d) st"

text \<open>
  The data of a POST to \<^verbatim>\<open>VoucherSetForm\<close>. The form takes the fields \<^verbatim>\<open>name\<close>,
  \<^verbatim>\<open>code_length\<close>, \<^verbatim>\<open>description\<close>, \<^verbatim>\<open>start_datetime\<close>, \<^verbatim>\<open>end_datetime\<close> and \<^verbatim>\<open>count\<close>
  from the model class, which is not part of the dashboard sources: they are given as the
  values the framework's cleaning of these fields delivers. \<^verbatim>\<open>usage\<close> and \<^verbatim>\<open>offers\<close>
  are declared in \<^verbatim>\<open>forms.py\<close>, both required: the usage is \<open>None\<close> when none (or none of
  the choices) was sent.
\<close>

record VoucherSetPOST =
  p_name :: string
  p_code_length :: int
  p_description :: string
  p_start_datetime :: int
  p_end_datetime :: int
  p_count :: nat
  p_usage :: "usage option"
  p_offers :: "nat set"

text \<open>
  A POST to the set form: the validation (\<^verbatim>\<open>clean_count\<close> for the count, the required
  checks of usage and offers, in the order of the fields), then \<^verbatim>\<open>save\<close> with the cleaned
  data. The create view starts from an unsaved instance, the update view loads the
  instance by its key (a missing one is a 404).
\<close>

definition VoucherSetForm_post ::
  "candidates \<Rightarrow> int \<Rightarrow> VoucherSet option \<Rightarrow> VoucherSetPOST \<Rightarrow> store \<Rightarrow> response \<times> store"
  where
  "VoucherSetForm_post cands now instance p st =
     (let r_count = clean_count instance (p_count p);
          r_usage = required_value ''usage'' (p_usage p);
          r_offers = required_choices ''offers'' (p_offers p);
          errors = errors_of r_count @ errors_of r_usage @ errors_of r_offers
      in if errors \<noteq> [] then (FormErrors errors, st)
         else case (r_count, r_usage, r_offers) of
                (Inr data, Inr us, Inr os) \<Rightarrow>
                  (case save cands now instance
                          \<lparr>sf_name = p_name p, sf_code_length = p_code_length p,
                            sf_description = p_description p,
                            sf_start_datetime = p_start_datetime p,
                            sf_end_datetime = p_end_datetime p,
                            sf_count = data, sf_usage = us, sf_offers = os\<rparr> st of
                     (Inl e, st') \<Rightarrow> (ServerError e, st')
                   | (Inr _, st') \<Rightarrow> (Redirect, st'))
              | _ \<Rightarrow> (ServerError KeyError, st))"

definition VoucherSetCreateView_post ::
  "candidates \<Rightarrow> int \<Rightarrow> VoucherSetPOST \<Rightarrow> store \<Rightarrow> response \<times> store" where
  "VoucherSetCreateView_post cands now p st = VoucherSetForm_post cands now None p st"

definition VoucherSetUpdateView_post ::
  "candidates \<Rightarrow> int \<Rightarrow> nat \<Rightarrow> VoucherSetPOST \<Rightarrow> store \<Rightarrow> response \<times> store" where
  "VoucherSetUpdateView_post cands now k p st =
     (case objects_get (\<lambda>s. set_pk s = k) (voucher_sets st) of
        Inl DoesNotExist \<Rightarrow> (NotFound, st)
      | Inl e \<Rightarrow> (ServerError e, st)
      | Inr instance \<Rightarrow> VoucherSetForm_post cands now (Some instance) p st)"

text \<open>
  Modelled from the spec: deleting a voucher set (\<^verbatim>\<open>VoucherSetDeleteView\<close> is the generic
  delete view; the cascade is declared in the model class, which is not part of the
  dashboard sources): the set's vouchers are deleted with it.
\<close>

definition VoucherSetDeleteView_delete :: "nat \<Rightarrow> store \<Rightarrow> response \<times> store" where
  "VoucherSetDeleteView_delete k st =
     (case objects_get (\<lambda>s. set_pk s = k) (voucher_sets st) of
        Inl DoesNotExist \<Rightarrow> (NotFound, st)
      | Inl e \<Rightarrow> (ServerError e, st)
      | Inr object \<Rightarrow>
          (Redirect,
           st\<lparr>vouchers := filter (\<lambda>v. voucher_set v \<noteq> Some (set_pk object)) (vouchers st),
                voucher_sets := filter (\<lambda>s. set_pk s \<noteq> set_pk object) (voucher_sets st)\<rparr>))"

section \<open>The stores the dashboard can reach\<close>

text \<open>
  The stores that arise from the empty store by the mutating requests of the dashboard:
  creating, editing and deleting a voucher, submitting the set form of the create or the
  update view, deleting a voucher set.
\<close>

inductive reachable :: "store \<Rightarrow> bool" where
  start: "reachable empty_store"
| voucher_created:
    "reachable st \<Longrightarrow> VoucherCreateView_post now vd st = (r, st') \<Longrightarrow> reachable st'"
| voucher_updated:
    "reachable st \<Longrightarrow> VoucherUpdateView_post vpk vd st = (r, st') \<Longrightarrow> reachable st'"
| voucher_deleted:
    "reachable st \<Longrightarrow> VoucherDeleteView_delete vpk st = (r, st') \<Longrightarrow> reachable st'"
| set_created:
    "reachable st \<Longrightarrow> VoucherSetCreateView_post cands now d st = (r, st') \<Longrightarrow> reachable st'"
| set_updated:
    "reachable st \<Longrightarrow> VoucherSetUpdateView_post cands now k d st = (r, st') \<Longrightarrow> reachable st'"
| set_deleted:
    "reachable st \<Longrightarrow> VoucherSetDeleteView_delete k st = (r, st') \<Longrightarrow> reachable st'"

section \<open>The voucher list: \<^verbatim>\<open>VoucherListView.get_queryset\<close>\<close>

text \<open>
  \<^verbatim>\<open>order_by\<close>: the name of a sortable field, with a leading minus sign for descending
  order. Rows with equal keys stay in the order they had.
\<close>

definition field_key :: "string \<Rightarrow> Voucher \<Rightarrow> int" where
  "field_key f v =
     (if f = ''num_basket_additions'' then int (num_basket_additions v)
      else if f = ''num_orders'' then int (num_orders v)
      else if f = ''date_created'' then date_created v
      else 0)"

fun order_by :: "string \<Rightarrow> Voucher list \<Rightarrow> Voucher list" where
  "order_by [] qs = qs"
| "order_by (c # f) qs =
     (if c = CHR ''-'' then sort_key (\<lambda>v. - field_key f v) qs
      else sort_key (field_key (c # f)) qs)"

text \<open>
  The query string of a request. It is either empty, or it carries the optional sort
  parameters \<^verbatim>\<open>sort\<close> and \<^verbatim>\<open>dir\<close> and the fields of \<^verbatim>\<open>VoucherSearchForm\<close>. The form's
  fields are all optional; \<open>fields_valid\<close> is the outcome of the framework's own
  field validation, the fields are given as that validation parses them (an absent
  text field is the empty string, an unset tri-state field is \<open>None\<close>).
\<close>

record query =
  sort_param :: "string option"
  dir_param :: "string option"
  fields_valid :: bool
  q_name :: string
  q_code :: string
  q_is_active :: "bool option"
  q_in_set :: "bool option"

datatype request_GET = EmptyGET | GET query

text \<open>
  Modelled from the spec: \<^verbatim>\<open>oscar.views.sort_queryset\<close> (not part of the dashboard
  sources): a sort key from the allow-list orders the result by that field (descending
  when \<^verbatim>\<open>dir\<close> is \<^verbatim>\<open>desc\<close>); any other key, or none, gives the default order.
\<close>

definition sort_queryset ::
  "Voucher list \<Rightarrow> request_GET \<Rightarrow> string list \<Rightarrow> string \<Rightarrow> Voucher list" where
  "sort_queryset qs request allowed_sorts default_sort =
     (case request of
        EmptyGET \<Rightarrow> order_by default_sort qs
      | GET q \<Rightarrow>
          (case sort_param q of
             None \<Rightarrow> order_by default_sort qs
           | Some s \<Rightarrow>
               if s \<in> set allowed_sorts
               then order_by ((if dir_param q = Some ''desc'' then ''-'' else '''') @ s) qs
               else order_by default_sort qs))"

text \<open>\<^verbatim>\<open>VoucherSearchForm.clean_code\<close>\<close>

definition VoucherSearchForm_clean_code :: "string \<Rightarrow> string" where
  "VoucherSearchForm_clean_code c = upper c"

definition filter_is_active :: "int \<Rightarrow> bool option \<Rightarrow> Voucher list \<Rightarrow> Voucher list" where
  "filter_is_active now is_active qs =
     (case is_active of
        None \<Rightarrow> qs
      | Some True \<Rightarrow> filter (\<lambda>v. start_datetime v \<le> now \<and> end_datetime v \<ge> now) qs
      | Some False \<Rightarrow> filter (\<lambda>v. end_datetime v < now) qs)"

definition filter_in_set :: "bool option \<Rightarrow> Voucher list \<Rightarrow> Voucher list" where
  "filter_in_set in_set qs =
     (case in_set of
        None \<Rightarrow> qs
      | Some b \<Rightarrow> filter (\<lambda>v. (voucher_set v = None) = (\<not> b)) qs)"

definition get_queryset :: "int \<Rightarrow> request_GET \<Rightarrow> store \<Rightarrow> Voucher list" where
  "get_queryset now request st =
     (let qs = order_by ''-date_created'' (vouchers st);
          qs = sort_queryset qs request
                 [''num_basket_additions'', ''num_orders'', ''date_created'']
                 ''-date_created''
      in case request of
           EmptyGET \<Rightarrow> filter (\<lambda>v. voucher_set v = None) qs
         | GET q \<Rightarrow>
             if \<not> fields_valid q then qs
             else
               let data_name = q_name q;
                   data_code = VoucherSearchForm_clean_code (q_code q);
                   qs = (if data_name \<noteq> [] then filter (\<lambda>v. icontains data_name (name v)) qs
                         else qs);
                   qs = (if data_code \<noteq> [] then filter (\<lambda>v. code v = data_code) qs
                         else qs);
                   qs = filter_is_active now (q_is_active q) qs;
                   qs = filter_in_set (q_in_set q) qs
               in qs)"

text \<open>The default order of the list: newest first.\<close>

definition default_order :: "Voucher list \<Rightarrow> Voucher list" where
  "default_order qs = sort_key (\<lambda>v. - date_created v) qs"

section \<open>Notions used in the statements\<close>

text \<open>
  The key under which \<^verbatim>\<open>save\<close> stores the instance: its own, or the next free key for the
  unsaved instance of the create view.
\<close>

definition instance_pk :: "VoucherSet option \<Rightarrow> store \<Rightarrow> nat" where
  "instance_pk instance st = (case instance of None \<Rightarrow> next_set_pk st | Some i \<Rightarrow> set_pk i)"

text \<open>A child voucher after synchronisation with the set form.\<close>

definition synced :: "VoucherSetFormData \<Rightarrow> Voucher \<Rightarrow> Voucher" where
  "synced d v = v\<lparr>name := sf_name d, usage := sf_usage d,
     start_datetime := sf_start_datetime d, end_datetime := sf_end_datetime d,
     offers := sf_offers d\<rparr>"

text \<open>A row after \<^verbatim>\<open>offers.add\<close> or \<^verbatim>\<open>offers.set\<close> for the vouchers whose keys are in \<open>S\<close>.\<close>

definition touch_add :: "nat set \<Rightarrow> nat set \<Rightarrow> Voucher \<Rightarrow> Voucher" where
  "touch_add os S v = (if pk v \<in> S then v\<lparr>offers := offers v \<union> os\<rparr> else v)"

definition touch_set :: "nat set \<Rightarrow> nat set \<Rightarrow> Voucher \<Rightarrow> Voucher" where
  "touch_set os S v = (if pk v \<in> S then v\<lparr>offers := os\<rparr> else v)"

text \<open>
  The invariant of the reachable stores: a voucher refers only to a set key that has been
  handed out, and every set's \<open>num_vouchers\<close> is the number of its child vouchers, which
  is at most its \<open>count\<close>.
\<close>

definition store_inv :: "store \<Rightarrow> bool" where
  "store_inv st \<longleftrightarrow>
     (\<forall>v\<in>set (vouchers st). \<forall>k. voucher_set v = Some k \<longrightarrow> k < next_set_pk st)
     \<and> (\<forall>s\<in>set (voucher_sets st).
           num_vouchers s = length (set_vouchers (set_pk s) st)
           \<and> length (set_vouchers (set_pk s) st) \<le> count s)"

text \<open>The fields that \<^verbatim>\<open>instance.vouchers.update\<close> writes to the rows of the set \<open>k\<close>.\<close>

definition sync_fields :: "nat \<Rightarrow> VoucherSetFormData \<Rightarrow> Voucher \<Rightarrow> Voucher" where
  "sync_fields k d v =
     (if voucher_set v = Some k
      then v\<lparr>name := sf_name d, usage := sf_usage d,
             start_datetime := sf_start_datetime d, end_datetime := sf_end_datetime d\<rparr>
      else v)"

text \<open>A voucher as one iteration of the creation loop leaves it.\<close>

definition new_voucher :: "candidates \<Rightarrow> int \<Rightarrow> nat \<Rightarrow> VoucherSetFormData \<Rightarrow> Voucher \<Rightarrow> bool" where
  "new_voucher cands now k d v \<longleftrightarrow>
     name v = sf_name d \<and> usage v = sf_usage d
     \<and> start_datetime v = sf_start_datetime d \<and> end_datetime v = sf_end_datetime d
     \<and> offers v = sf_offers d \<and> voucher_set v = Some k \<and> date_created v = now
     \<and> code v \<in> range (cands (sf_code_length d))"

text \<open>The store after the two update steps of \<^verbatim>\<open>save\<close>.\<close>

definition phase_update :: "nat \<Rightarrow> VoucherSetFormData \<Rightarrow> store \<Rightarrow> store" where
  "phase_update k d st = set_all_offers k (sf_offers d) (child_vouchers_update k d st)"

text \<open>
  The vouchers that the filters of a search form select: the name holds the form's name
  (letter case ignored), the code is the form's code in upper case, the voucher is active
  or expired as asked, and it is in a set or not as asked; an empty or unset filter selects
  every voucher.
\<close>

definition matches :: "int \<Rightarrow> query \<Rightarrow> Voucher \<Rightarrow> bool" where
  "matches now q v \<longleftrightarrow>
     (q_name q = [] \<or> icontains (q_name q) (name v))
     \<and> (upper (q_code q) = [] \<or> code v = upper (q_code q))
     \<and> (case q_is_active q of
          None \<Rightarrow> True
        | Some True \<Rightarrow> start_datetime v \<le> now \<and> now \<le> end_datetime v
        | Some False \<Rightarrow> end_datetime v < now)
     \<and> (case q_in_set q of
          None \<Rightarrow> True
        | Some b \<Rightarrow> (voucher_set v \<noteq> None) = b)"

text \<open>The sortable fields of the voucher list.\<close>

definition allowed_sorts :: "string list" where
  "allowed_sorts = [''num_basket_additions'', ''num_orders'', ''date_created'']"

text \<open>Three vouchers used as concrete data below.\<close>

definition voucher_A :: Voucher where
  "voucher_A = \<lparr>pk = 1, name = ''SPRING'', code = ''AAA'', usage = SINGLE_USE,
     start_datetime = 10, end_datetime = 20, voucher_set = None, offers = {1},
     date_created = 5, num_basket_additions = 0, num_orders = 2\<rparr>"

definition voucher_B :: Voucher where
  "voucher_B = \<lparr>pk = 2, name = ''SUMMER'', code = ''BBB'', usage = MULTI_USE,
     start_datetime = 30, end_datetime = 40, voucher_set = Some 1, offers = {1},
     date_created = 6, num_basket_additions = 0, num_orders = 1\<rparr>"

definition voucher_C :: Voucher where
  "voucher_C = \<lparr>pk = 3, name = ''AUTUMN'', code = ''CCC'', usage = MULTI_USE,
     start_datetime = 22, end_datetime = 50, voucher_set = None, offers = {},
     date_created = 7, num_basket_additions = 0, num_orders = 0\<rparr>"

definition store_ABC :: store where
  "store_ABC = \<lparr>vouchers = [voucher_A, voucher_B, voucher_C], voucher_sets = [],
     next_voucher_pk = 4, next_set_pk = 2\<rparr>"

definition query_none :: query where
  "query_none = \<lparr>sort_param = None, dir_param = None, fields_valid = True,
     q_name = [], q_code = [], q_is_active = None, q_in_set = None\<rparr>"

text \<open>Concrete form data, a candidate source with three codes per length, and the store
  that creating the set \<open>form_spring_set\<close> on the empty store gives (\<open>data_spring_set\<close> is
  the cleaned data of that form).\<close>

definition form_winter :: VoucherFormData where
  "form_winter = \<lparr>f_name = ''WINTER'', f_code = '' win1 '', f_start_datetime = Some 1,
     f_end_datetime = Some 2, f_usage = Some SINGLE_USE, f_offers = {1}\<rparr>"

definition demo_codes :: candidates where
  "demo_codes len i =
     replicate (nat len) (if i = 0 then CHR ''A'' else if i = 1 then CHR ''B'' else CHR ''C'')"

definition form_spring_set :: VoucherSetPOST where
  "form_spring_set = \<lparr>p_name = ''SPRING'', p_code_length = 2, p_description = ''spring sale'',
     p_start_datetime = 10, p_end_datetime = 20, p_count = 2, p_usage = Some MULTI_USE,
     p_offers = {1}\<rparr>"

definition data_spring_set :: VoucherSetFormData where
  "data_spring_set = \<lparr>sf_name = ''SPRING'', sf_code_length = 2, sf_description = ''spring sale'',
     sf_start_datetime = 10, sf_end_datetime = 20, sf_count = 2, sf_usage = MULTI_USE,
     sf_offers = {1}\<rparr>"

definition spring_voucher :: "nat \<Rightarrow> string \<Rightarrow> Voucher" where
  "spring_voucher n cd = \<lparr>pk = n, name = ''SPRING'', code = cd, usage = MULTI_USE,
     start_datetime = 10, end_datetime = 20, voucher_set = Some 1, offers = {1},
     date_created = 0, num_basket_additions = 0, num_orders = 0\<rparr>"

definition spring_set :: VoucherSet where
  "spring_set = \<lparr>set_pk = 1, set_name = ''SPRING'', code_length = 2,
     description = ''spring sale'', set_start_datetime = 10, set_end_datetime = 20,
     count = 2, num_vouchers = 2\<rparr>"

definition store_spring :: store where
  "store_spring = \<lparr>vouchers = [spring_voucher 1 ''AA'', spring_voucher 2 ''BB''],
     voucher_sets = [spring_set], next_voucher_pk = 3, next_set_pk = 2\<rparr>"

definition form_spring :: VoucherFormData where
  "form_spring = \<lparr>f_name = ''SPRING'', f_code = ''spring1'', f_start_datetime = Some 1,
     f_end_datetime = Some 2, f_usage = Some SINGLE_USE, f_offers = {1}\<rparr>"

text \<open>Cleaned data of the set form for the saved set, with other values; and a candidate
  source that has one code per length only.\<close>

definition data_spring_edit :: VoucherSetFormData where
  "data_spring_edit = \<lparr>sf_name = ''SPRING 2'', sf_code_length = 2, sf_description = ''more'',
     sf_start_datetime = 11, sf_end_datetime = 21, sf_count = 3, sf_usage = SINGLE_USE,
     sf_offers = {2}\<rparr>"

definition one_code :: candidates where
  "one_code len i = replicate (nat len) CHR ''A''"

section \<open>Creating a voucher\<close>

lemma objects_get_none: "\<forall>r\<in>set rows. \<not> p r \<Longrightarrow> objects_get p rows = Inl DoesNotExist"
  by (simp add: objects_get_def filter_empty_conv [THEN iffD2])

lemma objects_get_at_most_one:
  "length (filter p rows) \<le> 1 \<Longrightarrow>
   objects_get p rows = Inl DoesNotExist \<or> (\<exists>r. objects_get p rows = Inr r)"
  by (cases "filter p rows" rule: list.exhaust; cases "tl (filter p rows)")
     (auto simp: objects_get_def)

lemma upper_Nil_iff [simp]: "upper s = [] \<longleftrightarrow> s = []"
  by (simp add: upper_def)

lemma dropWhile_id: "xs = [] \<or> \<not> P (hd xs) \<Longrightarrow> dropWhile P xs = xs"
  by (cases xs) auto

lemma rstrip_prefix: "\<exists>zs. ys = rev (dropWhile P (rev ys)) @ zs"
proof -
  have "rev ys = takeWhile P (rev ys) @ dropWhile P (rev ys)" by simp
  then have "ys = rev (dropWhile P (rev ys)) @ rev (takeWhile P (rev ys))"
    by (metis rev_append rev_rev_ident)
  then show ?thesis by blast
qed

lemma strip_ends: "strip s = [] \<or> (\<not> isspace (hd (strip s)) \<and> \<not> isspace (hd (rev (strip s))))"
proof (cases "strip s = []")
  case True
  then show ?thesis by simp
next
  case False
  let ?ys = "dropWhile isspace s"
  from False have last: "\<not> isspace (hd (rev (strip s)))"
    by (simp add: strip_def hd_dropWhile)
  obtain zs where ys: "?ys = strip s @ zs"
    using rstrip_prefix [of ?ys isspace] by (auto simp: strip_def)
  with False have "?ys \<noteq> []" and "hd (strip s) = hd ?ys" by auto
  then have "\<not> isspace (hd (strip s))" by (simp add: hd_dropWhile)
  with last show ?thesis by simp
qed

lemma strip_strip: "strip (strip s) = strip s"
proof (cases "strip s = []")
  case True
  then have "strip (strip s) = strip []" by simp
  also have "\<dots> = []" by (simp add: strip_def)
  finally show ?thesis using True by simp
next
  case False
  with strip_ends [of s]
  have h: "\<not> isspace (hd (strip s))" and l: "\<not> isspace (hd (rev (strip s)))" by auto
  have "dropWhile isspace (strip s) = strip s" using h by (simp add: dropWhile_id)
  moreover have "dropWhile isspace (rev (strip s)) = rev (strip s)" using l by (simp add: dropWhile_id)
  ultimately show ?thesis by (simp add: strip_def [of "strip s"])
qed

lemma vouchers_offers_add_code: "map code (vouchers (offers_add vpk os st)) = map code (vouchers st)"
  by (simp add: offers_add_def comp_def)

lemma vouchers_offers_add_name: "map name (vouchers (offers_add vpk os st)) = map name (vouchers st)"
  by (simp add: offers_add_def comp_def)

lemma full_clean_fresh:
  assumes "strip (f_name d) \<noteq> []" and "strip (f_code d) \<noteq> []"
    and "f_start_datetime d = Some sd" and "f_end_datetime d = Some ed" and "sd \<le> ed"
    and "f_usage d = Some us" and "f_offers d \<noteq> {}"
    and "\<forall>v\<in>set (vouchers st). name v \<noteq> strip (f_name d)"
    and "\<forall>v\<in>set (vouchers st). code v \<noteq> upper (strip (f_code d))"
  shows "full_clean st sv d = Inr ([], \<lparr>cd_name = Some (strip (f_name d)),
      cd_code = Some (upper (strip (f_code d))), cd_start_datetime = Some sd,
      cd_end_datetime = Some ed, cd_usage = Some us, cd_offers = Some (f_offers d)\<rparr>)"
  using assms
  by (simp add: full_clean_def and_then_def CharField_clean_def required_value_def
      required_choices_def clean_name_def clean_code_def clean_def Let_def
      objects_get_none strip_strip)

lemma full_clean_blank_code:
  assumes "strip (f_code d) = []"
    and "length (filter (\<lambda>v. name v = strip (f_name d)) (vouchers st)) \<le> 1"
  shows "\<exists>errors cleaned. full_clean st sv d = Inr (errors, cleaned)
      \<and> Required ''code'' \<in> set errors \<and> EmptyCode \<notin> set errors"
proof -
  let ?r_name = "and_then (CharField_clean ''name'' (f_name d)) (clean_name st sv)"
  from objects_get_at_most_one [OF assms(2)]
  have "escapes ?r_name = None \<and> EmptyCode \<notin> set (errors_of ?r_name)"
    by (auto simp: and_then_def CharField_clean_def clean_name_def Let_def split: if_splits)
  moreover have "and_then (CharField_clean ''code'' (f_code d)) (clean_code st sv)
      = Inl (ValidationError (Required ''code''))"
    using assms(1) by (simp add: and_then_def CharField_clean_def)
  ultimately show ?thesis
    by (auto simp: full_clean_def Let_def required_value_def required_choices_def clean_def
        split: option.splits)
qed

lemma form_valid_complete:
  "VoucherCreateView_form_valid now
      \<lparr>cd_name = Some nm, cd_code = Some cd, cd_start_datetime = Some sd,
       cd_end_datetime = Some ed, cd_usage = Some us, cd_offers = Some os\<rparr> st = Inr st'
   \<Longrightarrow> map code (vouchers st') = map code (vouchers st) @ [cd]
       \<and> map name (vouchers st') = map name (vouchers st) @ [nm]
       \<and> length (vouchers st') = Suc (length (vouchers st))"
  by (auto simp: VoucherCreateView_form_valid_def Voucher_objects_create_def Let_def
      offers_add_def comp_def)

lemma form_valid_returns:
  "\<exists>st'. VoucherCreateView_form_valid now
      \<lparr>cd_name = Some nm, cd_code = Some cd, cd_start_datetime = Some sd,
       cd_end_datetime = Some ed, cd_usage = Some us, cd_offers = Some os\<rparr> st = Inr st'"
  by (simp add: VoucherCreateView_form_valid_def Voucher_objects_create_def Let_def)

lemmas text_eval = strip_def isspace_def upper_def upper_char_def char_of_def bit_Suc_0_iff
  ascii_def

lemmas voucher_form_eval = VoucherCreateView_post_def full_clean_def and_then_def
  CharField_clean_def required_value_def required_choices_def clean_name_def clean_code_def
  clean_def objects_get_def VoucherCreateView_form_valid_def Voucher_objects_create_def
  offers_add_def Let_def

text \<open>
  C6, as the spec states it: with \<open>end \<ge> start\<close> and no voucher sharing the name or the
  normalised code, creating a voucher succeeds, and a code of whitespace only fails with
  \<open>EmptyCode\<close>. Both fail on the form as \<^verbatim>\<open>forms.py\<close> declares it. A code of whitespace
  only never reaches \<^verbatim>\<open>clean_code\<close>: the code field, which is required, rejects it, and
  the error of the form is the field's, not \<open>EmptyCode\<close>. And an input with an empty name,
  or with no offer chosen, is rejected although no voucher shares its name or code.
\<close>

theorem create_voucher_counterexample:
  "VoucherCreateView_post 9 (form_winter\<lparr>f_code := ''  ''\<rparr>) store_ABC
     = (FormErrors [Required ''code''], store_ABC)
   \<and> EmptyCode \<notin> set [Required ''code'']
   \<and> VoucherCreateView_post 9 (form_winter\<lparr>f_name := ''''\<rparr>) store_ABC
     = (FormErrors [Required ''name''], store_ABC)
   \<and> VoucherCreateView_post 9 (form_winter\<lparr>f_offers := {}\<rparr>) store_ABC
     = (FormErrors [Required ''offers''], store_ABC)"
  by (simp add: voucher_form_eval store_ABC_def voucher_A_def voucher_B_def voucher_C_def
      form_winter_def text_eval)

text \<open>
  C6, amended, for ASCII text. An input that passes the checks of the form's fields (name
  and code not blank, both datetimes, a usage and at least one offer given), with
  \<open>end \<ge> start\<close> and no voucher that has the stripped name or the normalised code: the
  voucher is created, its stored code is the code stripped and in upper case, its stored
  name the name stripped. An input whose code is empty or whitespace only is rejected with
  the required error of the code field, \<open>EmptyCode\<close> is not among the errors, and the
  store is unchanged (as long as at most one voucher has the name, so that the lookup of
  the name does not raise).
\<close>

theorem create_voucher_amended:
  assumes "ascii (f_name d)" and "ascii (f_code d)"
  shows "(strip (f_name d) \<noteq> [] \<and> strip (f_code d) \<noteq> []
          \<and> f_start_datetime d = Some sd \<and> f_end_datetime d = Some ed \<and> sd \<le> ed
          \<and> f_usage d = Some us \<and> f_offers d \<noteq> {}
          \<and> (\<forall>v\<in>set (vouchers st). name v \<noteq> strip (f_name d))
          \<and> (\<forall>v\<in>set (vouchers st). code v \<noteq> upper (strip (f_code d)))
         \<longrightarrow> (\<exists>st'. VoucherCreateView_post now d st = (Redirect, st')
                \<and> map code (vouchers st') = map code (vouchers st) @ [upper (strip (f_code d))]
                \<and> map name (vouchers st') = map name (vouchers st) @ [strip (f_name d)]
                \<and> length (vouchers st') = Suc (length (vouchers st))))
       \<and> (strip (f_code d) = []
          \<and> length (filter (\<lambda>v. name v = strip (f_name d)) (vouchers st)) \<le> 1
         \<longrightarrow> (\<exists>errors. VoucherCreateView_post now d st = (FormErrors errors, st)
                \<and> Required ''code'' \<in> set errors \<and> EmptyCode \<notin> set errors))"
proof (intro conjI impI)
  assume ok: "strip (f_name d) \<noteq> [] \<and> strip (f_code d) \<noteq> []
      \<and> f_start_datetime d = Some sd \<and> f_end_datetime d = Some ed \<and> sd \<le> ed
      \<and> f_usage d = Some us \<and> f_offers d \<noteq> {}
      \<and> (\<forall>v\<in>set (vouchers st). name v \<noteq> strip (f_name d))
      \<and> (\<forall>v\<in>set (vouchers st). code v \<noteq> upper (strip (f_code d)))"
  let ?cleaned = "\<lparr>cd_name = Some (strip (f_name d)),
      cd_code = Some (upper (strip (f_code d))), cd_start_datetime = Some sd,
      cd_end_datetime = Some ed, cd_usage = Some us, cd_offers = Some (f_offers d)\<rparr>"
  from ok have fc: "full_clean st None d = Inr ([], ?cleaned)"
    by (intro full_clean_fresh) simp_all
  obtain st' where fv: "VoucherCreateView_form_valid now ?cleaned st = Inr st'"
    using form_valid_returns by blast
  from form_valid_complete [OF fv] fc fv
  show "\<exists>st'. VoucherCreateView_post now d st = (Redirect, st')
      \<and> map code (vouchers st') = map code (vouchers st) @ [upper (strip (f_code d))]
      \<and> map name (vouchers st') = map name (vouchers st) @ [strip (f_name d)]
      \<and> length (vouchers st') = Suc (length (vouchers st))"
    by (simp add: VoucherCreateView_post_def)
next
  assume blank: "strip (f_code d) = []
      \<and> length (filter (\<lambda>v. name v = strip (f_name d)) (vouchers st)) \<le> 1"
  then obtain errors cleaned where
    "full_clean st None d = Inr (errors, cleaned)"
    and "Required ''code'' \<in> set errors" and "EmptyCode \<notin> set errors"
    using full_clean_blank_code [of d st None] by blast
  then show "\<exists>errors. VoucherCreateView_post now d st = (FormErrors errors, st)
      \<and> Required ''code'' \<in> set errors \<and> EmptyCode \<notin> set errors"
    by (auto simp: VoucherCreateView_post_def)
qed

theorem create_voucher_amended_witness:
  "ascii (f_name form_winter) \<and> ascii (f_code form_winter)
   \<and> strip (f_name form_winter) = ''WINTER'' \<and> upper (strip (f_code form_winter)) = ''WIN1''
   \<and> (\<exists>st'. VoucherCreateView_post 9 form_winter store_ABC = (Redirect, st')
         \<and> map code (vouchers st') = [''AAA'', ''BBB'', ''CCC'', ''WIN1'']
         \<and> map name (vouchers st') = [''SPRING'', ''SUMMER'', ''AUTUMN'', ''WINTER''])
   \<and> (\<exists>errors. VoucherCreateView_post 9 (form_winter\<lparr>f_code := ''  ''\<rparr>) store_ABC
           = (FormErrors errors, store_ABC)
         \<and> Required ''code'' \<in> set errors \<and> EmptyCode \<notin> set errors)"
proof -
  have a: "ascii (f_name form_winter)" "ascii (f_code form_winter)"
    "ascii (f_name (form_winter\<lparr>f_code := ''  ''\<rparr>))" "ascii (f_code (form_winter\<lparr>f_code := ''  ''\<rparr>))"
    by (simp_all add: form_winter_def text_eval)
  have n: "strip (f_name form_winter) = ''WINTER''" "upper ''win1'' = ''WIN1''"
    "strip (f_code form_winter) = ''win1''" "strip ''  '' = []"
    by (simp_all add: form_winter_def text_eval)
  have rows: "map name (vouchers store_ABC) = [''SPRING'', ''SUMMER'', ''AUTUMN'']"
    "map code (vouchers store_ABC) = [''AAA'', ''BBB'', ''CCC'']"
    by (simp_all add: store_ABC_def voucher_A_def voucher_B_def voucher_C_def)
  have fresh: "\<forall>v\<in>set (vouchers store_ABC). name v \<noteq> ''WINTER''"
    "\<forall>v\<in>set (vouchers store_ABC). code v \<noteq> ''WIN1''"
    by (simp_all add: store_ABC_def voucher_A_def voucher_B_def voucher_C_def)
  have none: "filter (\<lambda>v. name v = ''WINTER'') (vouchers store_ABC) = []"
    using fresh(1) by (simp add: filter_empty_conv)
  have f: "f_start_datetime form_winter = Some 1" "f_end_datetime form_winter = Some 2"
    "f_usage form_winter = Some SINGLE_USE" "f_offers form_winter \<noteq> {}"
    "f_name (form_winter\<lparr>f_code := ''  ''\<rparr>) = f_name form_winter"
    by (simp_all add: form_winter_def)
  from create_voucher_amended [OF a(1,2), of 1 2 SINGLE_USE store_ABC 9]
    create_voucher_amended [OF a(3,4), of 1 2 SINGLE_USE store_ABC 9]
  show ?thesis
    using a(1,2) by (auto simp: n rows fresh none f)
qed

lemma spring_set_created:
  "VoucherSetCreateView_post demo_codes 0 form_spring_set empty_store = (Redirect, store_spring)"
  by (simp add: VoucherSetCreateView_post_def VoucherSetForm_post_def clean_count_def
      required_value_def required_choices_def
      save_def atomic_def save_body_def ModelForm_save_def child_vouchers_update_def
      set_all_offers_def set_vouchers_def get_unused_code_def first_unused.simps
      Voucher_objects_create_def offers_add_def update_count_def Let_def
      empty_store_def form_spring_set_def demo_codes_def store_spring_def
      spring_voucher_def spring_set_def numeral_2_eq_2)

text \<open>
  C7. A second voucher with a name in use is to fail with \<open>DuplicateName\<close>. Saving a set
  with \<open>count = 2\<close> gives two vouchers with the set's name; creating a voucher with that
  name then does not report \<open>DuplicateName\<close>: the lookup in \<^verbatim>\<open>clean_name\<close> finds two
  rows, raises \<open>MultipleObjectsReturned\<close>, and nothing catches it.
\<close>

theorem duplicate_name_crashes:
  "VoucherSetCreateView_post demo_codes 0 form_spring_set empty_store = (Redirect, store_spring)
   \<and> VoucherCreateView_post 1 form_spring store_spring
       = (ServerError MultipleObjectsReturned, store_spring)"
  by (simp add: spring_set_created VoucherCreateView_post_def full_clean_def and_then_def
      CharField_clean_def clean_name_def
      objects_get_def store_spring_def spring_voucher_def form_spring_def text_eval)

section \<open>Saving a voucher set\<close>

subsection \<open>The code generator\<close>

lemma first_unused_Some:
  "i \<le> j \<Longrightarrow> cand j \<notin> set used \<Longrightarrow>
   \<exists>c. first_unused cand used i = Some c \<and> c \<notin> set used \<and> c \<in> range cand"
proof (induction "j - i" arbitrary: i)
  case 0
  then have "i = j" by simp
  with 0 show ?case by (subst first_unused.simps) simp
next
  case (Suc n)
  show ?case
  proof (cases "cand i \<in> set used")
    case True
    from Suc have "n = j - Suc i" and "Suc i \<le> j" by simp_all
    with Suc have "\<exists>c. first_unused cand used (Suc i) = Some c \<and> c \<notin> set used \<and> c \<in> range cand"
      by blast
    with True show ?thesis by (subst first_unused.simps) simp
  next
    case False
    then show ?thesis by (subst first_unused.simps) simp
  qed
qed

lemma first_unused_sound:
  assumes ret: "first_unused cand used i = Some c"
  shows "c \<notin> set used \<and> c \<in> range cand"
proof (rule first_unused.raw_induct [where P = "\<lambda>cand' used' i c. cand' = cand \<and> used' = used \<longrightarrow> c \<notin> set used \<and> c \<in> range cand", OF _ ret, THEN mp])
  fix f cand' used' i c
  assume IH: "\<And>cand' used' i c. f cand' used' i = Some c \<Longrightarrow> cand' = cand \<and> used' = used \<longrightarrow> c \<notin> set used \<and> c \<in> range cand"
    and eq: "(if cand' i \<in> set used' then f cand' used' (Suc i) else Some (cand' i)) = Some c"
  show "cand' = cand \<and> used' = used \<longrightarrow> c \<notin> set used \<and> c \<in> range cand"
  proof (cases "cand' i \<in> set used'")
    case True
    with eq have "f cand' used' (Suc i) = Some c" by simp
    then show ?thesis by (rule IH)
  next
    case False
    with eq show ?thesis by auto
  qed
qed simp

lemma get_unused_code_sound:
  "get_unused_code cands len st = Some c \<Longrightarrow>
   c \<notin> set (map code (vouchers st)) \<and> c \<in> range (cands len)"
  unfolding get_unused_code_def by (rule first_unused_sound)

lemma get_unused_code_returns:
  "0 < card (range (cands len) - set (map code (vouchers st))) \<Longrightarrow>
   \<exists>c. get_unused_code cands len st = Some c"
proof -
  assume "0 < card (range (cands len) - set (map code (vouchers st)))"
  then have "range (cands len) - set (map code (vouchers st)) \<noteq> {}"
    by (auto simp: card_gt_0_iff)
  then obtain j where "cands len j \<notin> set (map code (vouchers st))" by auto
  from first_unused_Some [of 0 j "cands len" "map code (vouchers st)"] this show ?thesis
    unfolding get_unused_code_def by blast
qed

lemma get_unused_code_stuck:
  "range (cands len) \<subseteq> set (map code (vouchers st)) \<Longrightarrow> get_unused_code cands len st = None"
proof (rule ccontr)
  assume sub: "range (cands len) \<subseteq> set (map code (vouchers st))"
    and "get_unused_code cands len st \<noteq> None"
  then obtain c where "get_unused_code cands len st = Some c" by auto
  from get_unused_code_sound [OF this] sub show False by auto
qed

subsection \<open>Rows under the offer updates\<close>

lemma touch_add_fields [simp]:
  "pk (touch_add os S v) = pk v" "code (touch_add os S v) = code v"
  "voucher_set (touch_add os S v) = voucher_set v" "name (touch_add os S v) = name v"
  "usage (touch_add os S v) = usage v" "start_datetime (touch_add os S v) = start_datetime v"
  "end_datetime (touch_add os S v) = end_datetime v"
  by (simp_all add: touch_add_def)

lemma touch_set_fields [simp]:
  "pk (touch_set os S v) = pk v" "code (touch_set os S v) = code v"
  "voucher_set (touch_set os S v) = voucher_set v" "name (touch_set os S v) = name v"
  "usage (touch_set os S v) = usage v" "start_datetime (touch_set os S v) = start_datetime v"
  "end_datetime (touch_set os S v) = end_datetime v"
  by (simp_all add: touch_set_def)

lemma touch_add_twice: "touch_add os S' (touch_add os S v) = touch_add os (S \<union> S') v"
  by (simp add: touch_add_def Un_assoc)

lemma touch_set_twice: "touch_set os S' (touch_set os S v) = touch_set os (S \<union> S') v"
  by (simp add: touch_set_def)

lemma touch_add_same: "offers v = os \<Longrightarrow> touch_add os S v = v"
  by (simp add: touch_add_def)

lemma touch_set_empty: "touch_set os {} v = v"
  by (simp add: touch_set_def)

lemma vouchers_offers_add:
  "vouchers (offers_add p os st) = map (touch_add os {p}) (vouchers st)"
  by (simp add: offers_add_def touch_add_def)

lemma vouchers_offers_set:
  "vouchers (offers_set p os st) = map (touch_set os {p}) (vouchers st)"
  by (simp add: offers_set_def touch_set_def)

lemma offers_set_frame [simp]:
  "voucher_sets (offers_set p os st) = voucher_sets st"
  "next_set_pk (offers_set p os st) = next_set_pk st"
  "next_voucher_pk (offers_set p os st) = next_voucher_pk st"
  by (simp_all add: offers_set_def)

lemma offers_add_frame [simp]:
  "voucher_sets (offers_add p os st) = voucher_sets st"
  "next_set_pk (offers_add p os st) = next_set_pk st"
  "next_voucher_pk (offers_add p os st) = next_voucher_pk st"
  by (simp_all add: offers_add_def)

lemma fold_offers_set:
  "vouchers (fold (\<lambda>voucher. offers_set (pk voucher) os) xs st)
     = map (touch_set os (pk ` set xs)) (vouchers st)
   \<and> voucher_sets (fold (\<lambda>voucher. offers_set (pk voucher) os) xs st) = voucher_sets st
   \<and> next_set_pk (fold (\<lambda>voucher. offers_set (pk voucher) os) xs st) = next_set_pk st
   \<and> next_voucher_pk (fold (\<lambda>voucher. offers_set (pk voucher) os) xs st) = next_voucher_pk st"
proof (induction xs arbitrary: st)
  case Nil
  show ?case by (simp add: touch_set_empty)
next
  case (Cons x xs)
  have "insert (pk x) (pk ` set xs) = {pk x} \<union> pk ` set xs" by simp
  then show ?case
    by (simp add: Cons.IH vouchers_offers_set touch_set_twice comp_def del: Un_insert_left)
qed

subsection \<open>The phases of \<^verbatim>\<open>save\<close>\<close>

lemma sync_fields_fields [simp]:
  "pk (sync_fields k d v) = pk v" "code (sync_fields k d v) = code v"
  "voucher_set (sync_fields k d v) = voucher_set v"
  by (simp_all add: sync_fields_def)

lemma child_vouchers_update_eq:
  "child_vouchers_update k d st = st\<lparr>vouchers := map (sync_fields k d) (vouchers st)\<rparr>"
  by (simp add: child_vouchers_update_def sync_fields_def)

lemma touch_sync_child:
  "voucher_set v = Some k \<Longrightarrow> pk v \<in> S \<Longrightarrow>
   touch_set (sf_offers d) S (sync_fields k d v) = synced d v"
  by (simp add: touch_set_def sync_fields_def synced_def)

lemma ModelForm_save_frame:
  "fst (ModelForm_save instance d st) = instance_pk instance st"
  "vouchers (snd (ModelForm_save instance d st)) = vouchers st"
  "next_voucher_pk (snd (ModelForm_save instance d st)) = next_voucher_pk st"
  by (simp_all add: ModelForm_save_def instance_pk_def split: option.split)

lemma set_vouchers_map:
  "(\<And>v. voucher_set (g v) = voucher_set v) \<Longrightarrow>
   set_vouchers k (st\<lparr>vouchers := map g (vouchers st)\<rparr>) = map g (set_vouchers k st)"
  by (simp add: set_vouchers_def filter_map comp_def)

lemma phase_update_vouchers:
  "vouchers (phase_update k d st)
     = map (\<lambda>v. touch_set (sf_offers d) (pk ` set (set_vouchers k st)) (sync_fields k d v))
         (vouchers st)"
proof -
  have "pk ` set (set_vouchers k (child_vouchers_update k d st)) = pk ` set (set_vouchers k st)"
    by (simp add: child_vouchers_update_eq set_vouchers_map image_image)
  then show ?thesis
    by (simp add: phase_update_def set_all_offers_def fold_offers_set child_vouchers_update_eq
        comp_def)
qed

lemma phase_update_frame [simp]:
  "voucher_sets (phase_update k d st) = voucher_sets st"
  "next_set_pk (phase_update k d st) = next_set_pk st"
  "next_voucher_pk (phase_update k d st) = next_voucher_pk st"
  by (simp_all add: phase_update_def set_all_offers_def fold_offers_set child_vouchers_update_eq)

lemma phase_update_codes [simp]:
  "map code (vouchers (phase_update k d st)) = map code (vouchers st)"
  by (simp add: phase_update_vouchers comp_def)

lemma phase_update_voucher_sets [simp]:
  "map voucher_set (vouchers (phase_update k d st)) = map voucher_set (vouchers st)"
  by (simp add: phase_update_vouchers comp_def)

lemma length_set_vouchers_conv:
  "length (set_vouchers k st) = length (filter (\<lambda>x. x = Some k) (map voucher_set (vouchers st)))"
  by (simp add: set_vouchers_def filter_map comp_def)

lemma phase_update_owned [simp]:
  "length (set_vouchers k' (phase_update k d st)) = length (set_vouchers k' st)"
  by (simp add: length_set_vouchers_conv)

lemma phase_update_child:
  assumes "i < length (vouchers st)" and "voucher_set (vouchers st ! i) = Some k"
  shows "vouchers (phase_update k d st) ! i = synced d (vouchers st ! i)"
proof -
  from assms have "vouchers st ! i \<in> set (set_vouchers k st)"
    by (simp add: set_vouchers_def)
  then have "pk (vouchers st ! i) \<in> pk ` set (set_vouchers k st)" by (rule imageI)
  with assms show ?thesis
    by (simp add: phase_update_vouchers touch_sync_child)
qed

subsection \<open>The creation loop\<close>

lemma add_vouchers_shape:
  "add_vouchers cands now k d n flag st = (r, st') \<Longrightarrow>
   voucher_sets st' = voucher_sets st \<and> next_set_pk st' = next_set_pk st
   \<and> (\<exists>news S. vouchers st' = map (touch_add (sf_offers d) S) (vouchers st) @ news
         \<and> length news \<le> n
         \<and> (\<forall>v\<in>set news. new_voucher cands now k d v \<and> code v \<notin> set (map code (vouchers st)))
         \<and> distinct (map code news)
         \<and> (case r of Inr f \<Rightarrow> length news = n \<and> f = (flag \<or> 0 < n)
                      | Inl e \<Rightarrow> e = NoUnusedCode))"
proof (induction n arbitrary: flag st)
  case 0
  then have "st' = st" and "r = Inr flag" by simp_all
  then show ?case
    by (auto intro!: exI [of _ "[]"] exI [of _ "{}"] simp: touch_add_def)
next
  case (Suc n)
  let ?os = "sf_offers d"
  show ?case
  proof (cases "get_unused_code cands (sf_code_length d) st")
    case None
    with Suc.prems have "st' = st" and "r = Inl NoUnusedCode" by simp_all
    then show ?thesis
      by (auto intro!: exI [of _ "[]"] exI [of _ "{}"] simp: touch_add_def)
  next
    case (Some cd)
    define p where "p = next_voucher_pk st"
    define v0 where "v0 = \<lparr>pk = p, name = sf_name d, code = cd, usage = sf_usage d,
        start_datetime = sf_start_datetime d, end_datetime = sf_end_datetime d,
        voucher_set = Some k, offers = ?os,
        date_created = now, num_basket_additions = 0, num_orders = 0\<rparr>"
    define st2 where "st2 = offers_add p ?os
        (st\<lparr>vouchers := vouchers st @ [v0\<lparr>offers := {}\<rparr>], next_voucher_pk := Suc p\<rparr>)"
    from get_unused_code_sound [OF Some]
    have cd: "cd \<notin> set (map code (vouchers st))" "cd \<in> range (cands (sf_code_length d))"
      by simp_all
    have rows2: "vouchers st2 = map (touch_add ?os {p}) (vouchers st) @ [v0]"
      by (simp add: st2_def vouchers_offers_add v0_def touch_add_def)
    have frame2: "voucher_sets st2 = voucher_sets st" "next_set_pk st2 = next_set_pk st"
      by (simp_all add: st2_def)
    have v0: "new_voucher cands now k d v0" "code v0 = cd" "offers v0 = ?os"
      using cd by (simp_all add: new_voucher_def v0_def)
    from Suc.prems Some have run: "add_vouchers cands now k d n True st2 = (r, st')"
      by (simp add: Voucher_objects_create_def Let_def st2_def p_def v0_def)
    from Suc.IH [OF run] obtain news S where
      sets: "voucher_sets st' = voucher_sets st2" "next_set_pk st' = next_set_pk st2"
      and rows: "vouchers st' = map (touch_add ?os S) (vouchers st2) @ news"
      and len: "length news \<le> n"
      and new: "\<forall>v\<in>set news. new_voucher cands now k d v \<and> code v \<notin> set (map code (vouchers st2))"
      and dist: "distinct (map code news)"
      and res: "case r of Inr f \<Rightarrow> length news = n \<and> f = (True \<or> 0 < n)
                        | Inl e \<Rightarrow> e = NoUnusedCode"
      by blast
    have rows': "vouchers st' = map (touch_add ?os ({p} \<union> S)) (vouchers st) @ (v0 # news)"
      using v0(3) by (simp add: rows rows2 touch_add_twice touch_add_same comp_def)
    have codes2: "set (map code (vouchers st2)) = insert cd (set (map code (vouchers st)))"
      using v0(2) by (auto simp: rows2)
    have new': "\<forall>v\<in>set (v0 # news).
        new_voucher cands now k d v \<and> code v \<notin> set (map code (vouchers st))"
      using new v0 cd codes2 by auto
    have dist': "distinct (map code (v0 # news))"
      using dist new v0(2) codes2 by auto
    have res': "case r of Inr f \<Rightarrow> length (v0 # news) = Suc n \<and> f = (flag \<or> 0 < Suc n)
                        | Inl e \<Rightarrow> e = NoUnusedCode"
      using res by (simp split: sum.splits)
    have len': "length (v0 # news) \<le> Suc n" using len by simp
    from sets frame2 have "voucher_sets st' = voucher_sets st \<and> next_set_pk st' = next_set_pk st"
      by simp
    with rows' len' new' dist' res' show ?thesis by blast
  qed
qed

lemma add_vouchers_enough:
  "n \<le> card (range (cands (sf_code_length d)) - set (map code (vouchers st))) \<Longrightarrow>
   \<exists>f st'. add_vouchers cands now k d n flag st = (Inr f, st')"
proof (induction n arbitrary: flag st)
  case 0
  show ?case by simp
next
  case (Suc n)
  let ?A = "range (cands (sf_code_length d)) - set (map code (vouchers st))"
  from Suc.prems have "0 < card ?A" by simp
  then obtain cd where some: "get_unused_code cands (sf_code_length d) st = Some cd"
    using get_unused_code_returns by blast
  from get_unused_code_sound [OF some] have cd: "cd \<in> ?A" by simp
  define st2 where "st2 = offers_add (next_voucher_pk st) (sf_offers d)
      (snd (Voucher_objects_create now (sf_name d) cd (Some k) (sf_usage d)
         (sf_start_datetime d) (sf_end_datetime d) st))"
  have "set (map code (vouchers st2)) = insert cd (set (map code (vouchers st)))"
    by (auto simp: st2_def vouchers_offers_add Voucher_objects_create_def Let_def)
  then have "range (cands (sf_code_length d)) - set (map code (vouchers st2)) = ?A - {cd}"
    by auto
  with cd Suc.prems
  have "n \<le> card (range (cands (sf_code_length d)) - set (map code (vouchers st2)))"
    by (simp add: card_Diff_singleton)
  from Suc.IH [OF this] obtain f st' where "add_vouchers cands now k d n True st2 = (Inr f, st')"
    by blast
  with some show ?case
    by (simp add: st2_def Voucher_objects_create_def Let_def)
qed

subsection \<open>\<^verbatim>\<open>save\<close> as a whole\<close>

lemma save_body_unfold:
  "save_body cands now inst d st =
     (case add_vouchers cands now (instance_pk inst st) d
             (sf_count d - length (set_vouchers (instance_pk inst st) st)) False
             (phase_update (instance_pk inst st) d (snd (ModelForm_save inst d st))) of
        (Inl e, st4) \<Rightarrow> (Inl e, st4)
      | (Inr f, st4) \<Rightarrow>
          (Inr (instance_pk inst st),
           if f then update_count (instance_pk inst st) st4 else st4))"
proof -
  have len: "length (set_vouchers k (phase_update k d (snd (ModelForm_save inst d st))))
      = length (set_vouchers k st)" for k
    by (simp add: length_set_vouchers_conv ModelForm_save_frame)
  obtain k st1 where ms: "ModelForm_save inst d st = (k, st1)" by (cases "ModelForm_save inst d st")
  then have k: "k = instance_pk inst st" using ModelForm_save_frame [of inst d st] by simp
  from ms have st1: "st1 = snd (ModelForm_save inst d st)" by simp
  show ?thesis
    using len [of k]
    by (simp add: save_body_def ms Let_def phase_update_def [symmetric] k [symmetric]
        st1 [symmetric] split: prod.split sum.split)
qed

lemma save_Inl: "save cands now inst d st = (Inl e, st') \<Longrightarrow> st' = st"
  by (auto simp: save_def atomic_def split: prod.splits sum.splits)

lemma save_Inr:
  "save cands now inst d st = (Inr k, st') \<longleftrightarrow> save_body cands now inst d st = (Inr k, st')"
  by (auto simp: save_def atomic_def split: prod.splits sum.splits)

lemma update_count_frame [simp]:
  "vouchers (update_count k st) = vouchers st"
  "next_set_pk (update_count k st) = next_set_pk st"
  "set_vouchers k' (update_count k st) = set_vouchers k' st"
  by (simp_all add: update_count_def set_vouchers_def)

text \<open>What a successful \<^verbatim>\<open>save\<close> leaves: the old rows, updated, followed by the new ones.\<close>

lemma save_success_shape:
  assumes "save cands now inst d st = (Inr k, st')"
  shows "k = instance_pk inst st
    \<and> (\<exists>news S.
          vouchers st' = map (touch_add (sf_offers d) S)
              (vouchers (phase_update k d (snd (ModelForm_save inst d st)))) @ news
          \<and> length news = sf_count d - length (set_vouchers k st)
          \<and> (\<forall>v\<in>set news. new_voucher cands now k d v \<and> code v \<notin> set (map code (vouchers st)))
          \<and> distinct (map code news)
          \<and> voucher_sets st' =
              (if 0 < sf_count d - length (set_vouchers k st)
               then map (\<lambda>s. if set_pk s = k
                              then s\<lparr>num_vouchers := length (set_vouchers k st) + length news\<rparr>
                              else s)
                      (voucher_sets (snd (ModelForm_save inst d st)))
               else voucher_sets (snd (ModelForm_save inst d st)))
          \<and> next_set_pk st' = next_set_pk (snd (ModelForm_save inst d st)))"
proof -
  let ?k = "instance_pk inst st"
  let ?n = "sf_count d - length (set_vouchers ?k st)"
  let ?st1 = "snd (ModelForm_save inst d st)"
  let ?st3 = "phase_update ?k d ?st1"
  obtain r st4 where run: "add_vouchers cands now ?k d ?n False ?st3 = (r, st4)"
    by (cases "add_vouchers cands now ?k d ?n False ?st3")
  from assms have body: "save_body cands now inst d st = (Inr k, st')"
    by (simp add: save_Inr)
  from body run obtain f where r: "r = Inr f" and k: "k = ?k"
    and st': "st' = (if f then update_count ?k st4 else st4)"
    by (auto simp: save_body_unfold split: sum.splits)
  from add_vouchers_shape [OF run] r obtain news S where
    sets: "voucher_sets st4 = voucher_sets ?st3" "next_set_pk st4 = next_set_pk ?st3"
    and rows: "vouchers st4 = map (touch_add (sf_offers d) S) (vouchers ?st3) @ news"
    and new: "\<forall>v\<in>set news. new_voucher cands now ?k d v \<and> code v \<notin> set (map code (vouchers ?st3))"
    and dist: "distinct (map code news)"
    and len: "length news = ?n" and f: "f = (0 < ?n)"
    by auto
  have owned4: "length (set_vouchers ?k st4) = length (set_vouchers ?k st) + length news"
  proof -
    have "filter (\<lambda>v. voucher_set v = Some ?k) news = news"
      using new by (auto simp: new_voucher_def filter_id_conv)
    then show ?thesis
      by (simp add: set_vouchers_def rows filter_map comp_def phase_update_vouchers
          ModelForm_save_frame)
  qed
  have new': "\<forall>v\<in>set news. new_voucher cands now k d v \<and> code v \<notin> set (map code (vouchers st))"
    using new k by (simp add: ModelForm_save_frame)
  have rows': "vouchers st' = map (touch_add (sf_offers d) S) (vouchers (phase_update k d ?st1)) @ news"
    using rows st' k by simp
  have sets': "voucher_sets st' =
      (if 0 < sf_count d - length (set_vouchers k st)
       then map (\<lambda>s. if set_pk s = k
                      then s\<lparr>num_vouchers := length (set_vouchers k st) + length news\<rparr>
                      else s)
              (voucher_sets ?st1)
       else voucher_sets ?st1)"
    using st' f k sets owned4 by (simp add: update_count_def)
  have next': "next_set_pk st' = next_set_pk ?st1"
    using st' sets by simp
  from k rows' len new' dist sets' next' show ?thesis by blast
qed

lemma save_enough:
  assumes "sf_count d - length (set_vouchers (instance_pk inst st) st)
      \<le> card (range (cands (sf_code_length d)) - set (map code (vouchers st)))"
  shows "\<exists>st'. save cands now inst d st = (Inr (instance_pk inst st), st')"
proof -
  let ?k = "instance_pk inst st"
  let ?st3 = "phase_update ?k d (snd (ModelForm_save inst d st))"
  have "map code (vouchers ?st3) = map code (vouchers st)"
    by (simp add: ModelForm_save_frame)
  with assms obtain f st4 where
    "add_vouchers cands now ?k d (sf_count d - length (set_vouchers ?k st)) False ?st3 = (Inr f, st4)"
    using add_vouchers_enough [of "sf_count d - length (set_vouchers ?k st)" cands d ?st3 now ?k False]
    by auto
  then show ?thesis
    by (simp add: save_def atomic_def save_body_unfold)
qed

section \<open>Properties of the voucher list\<close>

lemma order_by_default: "order_by ''-date_created'' qs = default_order qs"
  by (simp add: default_order_def field_key_def)

lemma set_order_by [simp]: "set (order_by f qs) = set qs"
  by (cases f) simp_all

lemma length_order_by [simp]: "length (order_by f qs) = length qs"
  by (cases f) simp_all

lemma set_sort_queryset [simp]: "set (sort_queryset qs request allowed d) = set qs"
  by (simp add: sort_queryset_def split: request_GET.split option.split)

lemma sort_key_idem: "sort_key f (sort_key f xs) = sort_key f xs"
  by (rule sort_key_id_if_sorted) simp

lemma default_order_idem: "default_order (default_order qs) = default_order qs"
  by (simp add: default_order_def sort_key_idem)

lemma set_default_order: "set (default_order qs) = set qs"
  by (simp add: default_order_def)

lemma sorted_default_order: "sorted (map (\<lambda>v. - date_created v) (default_order qs))"
  by (simp add: default_order_def)

lemma sort_queryset_default:
  "sort_param q = None \<or> (\<exists>s. sort_param q = Some s \<and> s \<notin> set allowed) \<Longrightarrow>
   sort_queryset qs (GET q) allowed ''-date_created'' = default_order qs"
  by (auto simp: sort_queryset_def order_by_default simp del: order_by.simps)

lemma sorted_filter_is_active:
  "sorted (map f qs) \<Longrightarrow> sorted (map f (filter_is_active now a qs))"
  by (simp add: filter_is_active_def sorted_filter split: option.split bool.split)

lemma sorted_filter_in_set:
  "sorted (map f qs) \<Longrightarrow> sorted (map f (filter_in_set b qs))"
  by (simp add: filter_in_set_def sorted_filter split: option.split)

lemma set_filter_is_active: "v \<in> set (filter_is_active now a qs) \<Longrightarrow> v \<in> set qs"
  by (auto simp: filter_is_active_def split: option.splits bool.splits)

lemma set_filter_in_set: "v \<in> set (filter_in_set b qs) \<Longrightarrow> v \<in> set qs"
  by (auto simp: filter_in_set_def split: option.splits)

lemma get_queryset_only_is_active:
  assumes "fields_valid q" and "q_name q = []" and "q_code q = []" and "q_in_set q = None"
  shows "set (get_queryset now (GET q) st) =
         set (filter_is_active now (q_is_active q) (vouchers st))"
  using assms
  by (auto simp: get_queryset_def filter_is_active_def filter_in_set_def Let_def
      VoucherSearchForm_clean_code_def upper_def
      simp del: order_by.simps split: option.splits bool.splits)

lemma voucher_A_simps:
  "start_datetime voucher_A = 10" "end_datetime voucher_A = 20" "voucher_set voucher_A = None"
  "date_created voucher_A = 5" "name voucher_A = ''SPRING''" "code voucher_A = ''AAA''"
  by (simp_all add: voucher_A_def)

lemma voucher_B_simps:
  "start_datetime voucher_B = 30" "end_datetime voucher_B = 40" "voucher_set voucher_B = Some 1"
  "date_created voucher_B = 6" "name voucher_B = ''SUMMER''" "code voucher_B = ''BBB''"
  by (simp_all add: voucher_B_def)

lemma voucher_C_simps:
  "start_datetime voucher_C = 22" "end_datetime voucher_C = 50" "voucher_set voucher_C = None"
  "date_created voucher_C = 7" "name voucher_C = ''AUTUMN''" "code voucher_C = ''CCC''"
  by (simp_all add: voucher_C_def)

lemmas voucher_ABC_simps = voucher_A_simps voucher_B_simps voucher_C_simps

lemma vouchers_store_ABC: "vouchers store_ABC = [voucher_A, voucher_B, voucher_C]"
  by (simp add: store_ABC_def)

lemma default_order_store_ABC:
  "default_order (vouchers store_ABC) = [voucher_C, voucher_B, voucher_A]"
  by (simp add: default_order_def vouchers_store_ABC voucher_ABC_simps)

text \<open>
  C8. With only \<^verbatim>\<open>is_active\<close> set in a valid search form, the list holds exactly the
  vouchers with \<open>start_datetime \<le> now \<le> end_datetime\<close> when the value is true, and
  exactly the vouchers with \<open>end_datetime < now\<close> when it is false, for every store and
  every time \<open>now\<close>.
\<close>

theorem is_active_filter_exact:
  assumes "fields_valid q" and "q_name q = []" and "q_code q = []" and "q_in_set q = None"
  shows "(q_is_active q = Some True \<longrightarrow>
            set (get_queryset now (GET q) st) =
              {v. v \<in> set (vouchers st) \<and> start_datetime v \<le> now \<and> now \<le> end_datetime v})
       \<and> (q_is_active q = Some False \<longrightarrow>
            set (get_queryset now (GET q) st) =
              {v. v \<in> set (vouchers st) \<and> end_datetime v < now})"
  using get_queryset_only_is_active [OF assms, of now st]
  by (auto simp: filter_is_active_def)

theorem is_active_filter_exact_witness:
  "set (get_queryset 21 (GET (query_none\<lparr>q_is_active := Some False\<rparr>)) store_ABC)
     = {voucher_A}
   \<and> set (get_queryset 35 (GET (query_none\<lparr>q_is_active := Some True\<rparr>)) store_ABC)
     = {voucher_B, voucher_C}"
proof -
  have inactive: "{v. v \<in> set (vouchers store_ABC) \<and> end_datetime v < 21} = {voucher_A}"
    by (auto simp: vouchers_store_ABC voucher_ABC_simps)
  have active: "{v. v \<in> set (vouchers store_ABC) \<and> start_datetime v \<le> 35 \<and> 35 \<le> end_datetime v}
      = {voucher_B, voucher_C}"
    by (auto simp: vouchers_store_ABC voucher_ABC_simps)
  show ?thesis
    using is_active_filter_exact [of "query_none\<lparr>q_is_active := Some False\<rparr>" 21 store_ABC]
      is_active_filter_exact [of "query_none\<lparr>q_is_active := Some True\<rparr>" 35 store_ABC]
    by (simp add: query_none_def inactive active)
qed

lemma filter_is_active_conv:
  "filter_is_active now a qs
     = filter (\<lambda>v. case a of None \<Rightarrow> True
                   | Some True \<Rightarrow> start_datetime v \<le> now \<and> now \<le> end_datetime v
                   | Some False \<Rightarrow> end_datetime v < now) qs"
  by (auto simp: filter_is_active_def split: option.split bool.split intro: filter_cong)

lemma filter_in_set_conv:
  "filter_in_set b qs
     = filter (\<lambda>v. case b of None \<Rightarrow> True | Some x \<Rightarrow> (voucher_set v \<noteq> None) = x) qs"
  by (auto simp: filter_in_set_def split: option.split intro: filter_cong)

lemma filter_if_conv: "(if c then filter P qs else qs) = filter (\<lambda>v. \<not> c \<or> P v) qs"
  by simp

lemma get_queryset_GET:
  "get_queryset now (GET q) st
     = (if fields_valid q
        then filter (matches now q)
               (sort_queryset (default_order (vouchers st)) (GET q) allowed_sorts ''-date_created'')
        else sort_queryset (default_order (vouchers st)) (GET q) allowed_sorts ''-date_created'')"
  unfolding get_queryset_def Let_def order_by_default allowed_sorts_def [symmetric]
    VoucherSearchForm_clean_code_def filter_is_active_conv filter_in_set_conv filter_if_conv
  by (auto simp: matches_def intro: filter_cong)

lemma sort_queryset_allowed:
  "sort_param q = Some s \<Longrightarrow> s \<in> set allowed_sorts \<Longrightarrow>
   sort_queryset qs (GET q) allowed_sorts d
     = (if dir_param q = Some ''desc'' then sort_key (\<lambda>v. - field_key s v) qs
        else sort_key (field_key s) qs)"
  by (auto simp: sort_queryset_def allowed_sorts_def)

lemma voucher_ABC_counts:
  "num_orders voucher_A = 2" "num_orders voucher_B = 1" "num_orders voucher_C = 0"
  by (simp_all add: voucher_A_def voucher_B_def voucher_C_def)

text \<open>
  C9, as the spec states it: whenever the search form fails validation or the sort key
  is outside the allow-list, the list is the whole table in the default order. That
  fails in two ways. A request with an unknown sort key and a valid search form that
  names a voucher gets the filtered list. And a request whose search form fails
  validation, with a sort key from the allow-list, gets the whole table in the order of
  that key, not in the default order.
\<close>

theorem fallback_unfiltered_counterexample:
  "''price'' \<notin> set allowed_sorts
   \<and> get_queryset 0 (GET (query_none\<lparr>sort_param := Some ''price'', q_name := ''spring''\<rparr>))
         store_ABC = [voucher_A]
   \<and> ''num_orders'' \<in> set allowed_sorts
   \<and> get_queryset 0 (GET (query_none\<lparr>fields_valid := False, sort_param := Some ''num_orders'',
         dir_param := Some ''desc''\<rparr>)) store_ABC = [voucher_A, voucher_B, voucher_C]
   \<and> default_order (vouchers store_ABC) = [voucher_C, voucher_B, voucher_A]"
proof -
  have d: "default_order [voucher_C, voucher_B, voucher_A] = [voucher_C, voucher_B, voucher_A]"
    using default_order_idem [of "vouchers store_ABC"] by (simp add: default_order_store_ABC)
  show ?thesis
    by (simp add: get_queryset_GET sort_queryset_def allowed_sorts_def query_none_def
        default_order_store_ABC order_by_default d matches_def field_key_def
        voucher_ABC_simps voucher_ABC_counts
        icontains_def upper_def upper_char_def char_of_def bit_Suc_0_iff)
qed

text \<open>
  C9, amended, for ASCII text. A request with query parameters never fails, and its list
  is as follows. If the search form fails validation, no filter is applied: the list is
  the whole table, in the default order (newest first) when the sort key is missing or
  outside the allow-list, and ordered by the sort key (descending when \<^verbatim>\<open>dir\<close> is
  \<^verbatim>\<open>desc\<close>) when the key is in the allow-list. If the search form is valid and the sort
  key is missing or outside the allow-list, the list holds exactly the vouchers that the
  filters of the form select, in the default order.
\<close>

theorem fallback_amended:
  assumes "ascii (q_name q)" and "ascii (q_code q)"
    and "\<forall>v\<in>set (vouchers st). ascii (name v)"
  shows "(\<not> fields_valid q
          \<and> (sort_param q = None \<or> (\<exists>s. sort_param q = Some s \<and> s \<notin> set allowed_sorts))
         \<longrightarrow> get_queryset now (GET q) st = default_order (vouchers st))
       \<and> (\<forall>s. \<not> fields_valid q \<and> sort_param q = Some s \<and> s \<in> set allowed_sorts
         \<longrightarrow> get_queryset now (GET q) st
               = (if dir_param q = Some ''desc''
                  then sort_key (\<lambda>v. - field_key s v) (default_order (vouchers st))
                  else sort_key (field_key s) (default_order (vouchers st)))
             \<and> set (get_queryset now (GET q) st) = set (vouchers st)
             \<and> length (get_queryset now (GET q) st) = length (vouchers st))
       \<and> (fields_valid q
          \<and> (sort_param q = None \<or> (\<exists>s. sort_param q = Some s \<and> s \<notin> set allowed_sorts))
         \<longrightarrow> get_queryset now (GET q) st = filter (matches now q) (default_order (vouchers st))
             \<and> set (get_queryset now (GET q) st)
                 = {v. v \<in> set (vouchers st) \<and> matches now q v}
             \<and> sorted (map (\<lambda>v. - date_created v) (get_queryset now (GET q) st)))"
proof (intro conjI impI allI)
  assume "\<not> fields_valid q
      \<and> (sort_param q = None \<or> (\<exists>s. sort_param q = Some s \<and> s \<notin> set allowed_sorts))"
  then show "get_queryset now (GET q) st = default_order (vouchers st)"
    using sort_queryset_default [of q allowed_sorts "default_order (vouchers st)"]
    by (simp add: get_queryset_GET default_order_idem)
next
  fix s
  assume a: "\<not> fields_valid q \<and> sort_param q = Some s \<and> s \<in> set allowed_sorts"
  then show "get_queryset now (GET q) st
      = (if dir_param q = Some ''desc''
         then sort_key (\<lambda>v. - field_key s v) (default_order (vouchers st))
         else sort_key (field_key s) (default_order (vouchers st)))"
    by (simp add: get_queryset_GET sort_queryset_allowed)
  from a show "set (get_queryset now (GET q) st) = set (vouchers st)"
    by (simp add: get_queryset_GET sort_queryset_allowed default_order_def)
  from a show "length (get_queryset now (GET q) st) = length (vouchers st)"
    by (simp add: get_queryset_GET sort_queryset_allowed default_order_def)
next
  assume a: "fields_valid q
      \<and> (sort_param q = None \<or> (\<exists>s. sort_param q = Some s \<and> s \<notin> set allowed_sorts))"
  then have eq: "get_queryset now (GET q) st
      = filter (matches now q) (default_order (vouchers st))"
    using sort_queryset_default [of q allowed_sorts "default_order (vouchers st)"]
    by (simp add: get_queryset_GET default_order_idem)
  then show "get_queryset now (GET q) st
      = filter (matches now q) (default_order (vouchers st))" .
  from eq show "set (get_queryset now (GET q) st)
      = {v. v \<in> set (vouchers st) \<and> matches now q v}"
    by (auto simp: set_default_order)
  from eq show "sorted (map (\<lambda>v. - date_created v) (get_queryset now (GET q) st))"
    using sorted_default_order [of "vouchers st"] by (simp add: sorted_filter)
qed

theorem fallback_amended_witness:
  "ascii ''spring'' \<and> ascii [] \<and> ascii (name voucher_A) \<and> ascii (name voucher_B)
   \<and> ascii (name voucher_C)
   \<and> get_queryset 0 (GET (query_none\<lparr>fields_valid := False, sort_param := Some ''price''\<rparr>))
        store_ABC = [voucher_C, voucher_B, voucher_A]
   \<and> get_queryset 0 (GET (query_none\<lparr>fields_valid := False, sort_param := Some ''num_orders'',
        dir_param := Some ''desc''\<rparr>)) store_ABC = [voucher_A, voucher_B, voucher_C]
   \<and> get_queryset 0 (GET (query_none\<lparr>sort_param := Some ''price'', q_name := ''spring''\<rparr>))
        store_ABC = [voucher_A]"
proof -
  have a: "ascii ''spring''" "ascii []" "ascii (name voucher_A)" "ascii (name voucher_B)"
    "ascii (name voucher_C)"
    by (simp_all add: ascii_def voucher_ABC_simps)
  then have names: "\<forall>v\<in>set (vouchers store_ABC). ascii (name v)"
    by (simp add: vouchers_store_ABC)
  let ?q1 = "query_none\<lparr>fields_valid := False, sort_param := Some ''price''\<rparr>"
  let ?q2 = "query_none\<lparr>fields_valid := False, sort_param := Some ''num_orders'',
      dir_param := Some ''desc''\<rparr>"
  let ?q3 = "query_none\<lparr>sort_param := Some ''price'', q_name := ''spring''\<rparr>"
  have q: "q_name ?q1 = []" "q_code ?q1 = []" "q_name ?q2 = []" "q_code ?q2 = []"
    "q_name ?q3 = ''spring''" "q_code ?q3 = []"
    by (simp_all add: query_none_def)
  have f: "\<not> fields_valid ?q1" "sort_param ?q1 = Some ''price''"
    "\<not> fields_valid ?q2" "sort_param ?q2 = Some ''num_orders''" "dir_param ?q2 = Some ''desc''"
    "fields_valid ?q3" "sort_param ?q3 = Some ''price''" "fields_valid query_none"
    by (simp_all add: query_none_def)
  have m: "filter (matches 0 ?q3) (default_order (vouchers store_ABC)) = [voucher_A]"
    by (simp add: default_order_store_ABC matches_def query_none_def voucher_ABC_simps
        icontains_def upper_def upper_char_def char_of_def bit_Suc_0_iff)
  have s: "sort_key (\<lambda>v. - field_key ''num_orders'' v) (default_order (vouchers store_ABC))
      = [voucher_A, voucher_B, voucher_C]"
    by (simp add: default_order_store_ABC field_key_def voucher_ABC_counts)
  have r1: "get_queryset 0 (GET ?q1) store_ABC = default_order (vouchers store_ABC)"
    using fallback_amended [of ?q1 store_ABC 0] a names unfolding q f
    by (simp add: allowed_sorts_def)
  have r2: "get_queryset 0 (GET ?q2) store_ABC = [voucher_A, voucher_B, voucher_C]"
    using fallback_amended [of ?q2 store_ABC 0] a names unfolding q f
    by (simp add: allowed_sorts_def s)
  have r3: "get_queryset 0 (GET ?q3) store_ABC = [voucher_A]"
    using fallback_amended [of ?q3 store_ABC 0] a names unfolding q f
    by (simp add: allowed_sorts_def m f)
  from r1 r2 r3 a show ?thesis
    by (simp add: default_order_store_ABC)
qed

text \<open>
  C10. A request with no query parameter at all lists the vouchers that belong to no
  voucher set, newest first: the standalone rows of the table in the default order, and
  not the whole table.
\<close>

theorem no_params_lists_standalone:
  "get_queryset now EmptyGET st
     = filter (\<lambda>v. voucher_set v = None) (default_order (vouchers st))
   \<and> set (get_queryset now EmptyGET st) = {v. v \<in> set (vouchers st) \<and> voucher_set v = None}
   \<and> sorted (map (\<lambda>v. - date_created v) (get_queryset now EmptyGET st))"
proof -
  have eq: "get_queryset now EmptyGET st
      = filter (\<lambda>v. voucher_set v = None) (default_order (vouchers st))"
    by (simp add: get_queryset_def sort_queryset_def Let_def order_by_default
        default_order_idem del: order_by.simps)
  have "sorted (map (\<lambda>v. - date_created v)
      (filter (\<lambda>v. voucher_set v = None) (default_order (vouchers st))))"
    using sorted_default_order [of "vouchers st"] by (simp add: sorted_filter)
  with eq show ?thesis by (auto simp: default_order_def)
qed

theorem no_params_lists_standalone_witness:
  "get_queryset 0 EmptyGET store_ABC = [voucher_C, voucher_A]
   \<and> get_queryset 0 EmptyGET store_ABC \<noteq> default_order (vouchers store_ABC)"
  using no_params_lists_standalone [of 0 store_ABC]
  by (simp add: default_order_store_ABC voucher_ABC_simps)

end
